theory Spec2Isabelle
  imports Complex_Main
begin

section \<open>The live voice session: hook \<open>useLiveSession\<close>\<close>

text \<open>
  The hook keeps four pieces of React state (\<open>isConnected\<close>, \<open>isSpeaking\<close>,
  \<open>volume\<close>, \<open>error\<close>) and a dozen refs. The model is one record holding all of them,
  followed by the part of the browser the hook talks to: which buffer sources are
  playing, the calls made on the audio graph (\<open>trace\<close>), the console, and a counter that
  names the objects the browser creates.

  Times and samples are JavaScript numbers; they are modelled as reals. Every callback
  is modelled as one atomic state transformer: the two \<open>await\<close>s of the source
  (\<open>getUserMedia\<close> in \<open>connect\<close>, \<open>decodeAudioData\<close> in \<open>onmessage\<close>) are taken as
  completing before the next callback runs.
\<close>

type_synonym handle = nat
type_synonym node = nat

datatype exn = InvalidStateError | DecodeError

text \<open>
  The calls the hook makes on the browser and on the session, as far as they acquire,
  use or give back a resource: \<open>processor.disconnect()\<close>, \<open>source.disconnect()\<close> of
  the microphone source, \<open>track.stop()\<close> on the tracks of a stream (one entry for the
  stream), \<open>context.close()\<close>, \<open>source.start(when)\<close> of a buffer source with the
  duration of its buffer, \<open>source.stop()\<close> when it does not raise,
  \<open>getUserMedia\<close>, \<open>live.connect\<close> and \<open>sendRealtimeInput\<close>.
\<close>

datatype effect =
    ProcessorDisconnect handle
  | SourceDisconnect handle
  | TrackStop handle
  | ContextClose handle
  | SourceStart node real real
  | SourceStop node
  | GetUserMedia
  | LiveConnect handle
  | SendRealtimeInput handle "real list"

record audio_buffer =
  duration :: real

record server_message =
  inlineData :: "string option"
  interrupted :: bool

record session =
  isConnected :: bool
  isSpeaking :: bool
  volume :: real
  error :: "string option"
  inputContextRef :: "handle option"
  outputContextRef :: "handle option"
  scriptProcessorRef :: "handle option"
  sourceNodeRef :: "handle option"
  audioStreamRef :: "handle option"
  inputAnalyserRef :: "handle option"
  outputAnalyserRef :: "handle option"
  nextStartTimeRef :: real
  scheduledSourcesRef :: "node list"
  sessionPromiseRef :: "handle option"
  clientRef :: "handle option"
  playing :: "node set"
  trace :: "effect list"
  console :: "string list"
  fresh :: nat

text \<open>The values the hook starts with (\<open>useState\<close> and \<open>useRef\<close> initialisers).\<close>

definition initial :: session where
  "initial =
     \<lparr> isConnected = False, isSpeaking = False, volume = 0, error = None,
       inputContextRef = None, outputContextRef = None, scriptProcessorRef = None,
       sourceNodeRef = None, audioStreamRef = None, inputAnalyserRef = None,
       outputAnalyserRef = None, nextStartTimeRef = 0, scheduledSourcesRef = [],
       sessionPromiseRef = None, clientRef = None,
       playing = {}, trace = [], console = [], fresh = 0 \<rparr>"

subsection \<open>The JavaScript \<open>Set\<close> of scheduled sources\<close>

text \<open>
  A \<open>Set\<close> iterates in insertion order and holds no element twice: a list, with
  \<open>add\<close> that skips a member. \<open>delete\<close> is \<open>removeAll\<close>, \<open>size\<close> is \<open>length\<close>.
\<close>

definition set_add :: "'a \<Rightarrow> 'a list \<Rightarrow> 'a list" where
  "set_add x xs = (if x \<in> set xs then xs else xs @ [x])"

subsection \<open>Stopping sources\<close>

text \<open>
  \<open>source.stop()\<close> of the browser: a source that is not playing (never started, or
  stopped before) raises \<open>InvalidStateError\<close>. The hook calls it inside
  \<open>try { ... } catch (e) {}\<close>, which is \<open>try_stop\<close>; \<open>stop_sources\<close> is the
  \<open>forEach\<close> over the set.
\<close>

definition source_stop :: "node \<Rightarrow> session \<Rightarrow> exn + session" where
  "source_stop n s =
     (if n \<in> playing s
      then Inr (s\<lparr>playing := playing s - {n}, trace := trace s @ [SourceStop n]\<rparr>)
      else Inl InvalidStateError)"

definition try_stop :: "node \<Rightarrow> session \<Rightarrow> session" where
  "try_stop n s = (case source_stop n s of Inr s' \<Rightarrow> s' | Inl e \<Rightarrow> s)"

definition stop_sources :: "session \<Rightarrow> session" where
  "stop_sources s = foldl (\<lambda>st n. try_stop n st) s (scheduledSourcesRef s)"

subsection \<open>\<open>cleanup\<close> (also exported as \<open>disconnect\<close>)\<close>

definition release_processor :: "session \<Rightarrow> session" where
  "release_processor s =
     (case scriptProcessorRef s of
        None \<Rightarrow> s
      | Some p \<Rightarrow> s\<lparr>trace := trace s @ [ProcessorDisconnect p], scriptProcessorRef := None\<rparr>)"

definition release_source :: "session \<Rightarrow> session" where
  "release_source s =
     (case sourceNodeRef s of
        None \<Rightarrow> s
      | Some n \<Rightarrow> s\<lparr>trace := trace s @ [SourceDisconnect n], sourceNodeRef := None\<rparr>)"

definition release_stream :: "session \<Rightarrow> session" where
  "release_stream s =
     (case audioStreamRef s of
        None \<Rightarrow> s
      | Some m \<Rightarrow> s\<lparr>trace := trace s @ [TrackStop m], audioStreamRef := None\<rparr>)"

definition close_input :: "session \<Rightarrow> session" where
  "close_input s =
     (case inputContextRef s of
        None \<Rightarrow> s
      | Some c \<Rightarrow> s\<lparr>trace := trace s @ [ContextClose c], inputContextRef := None\<rparr>)"

definition close_output :: "session \<Rightarrow> session" where
  "close_output s =
     (case outputContextRef s of
        None \<Rightarrow> s
      | Some c \<Rightarrow> s\<lparr>trace := trace s @ [ContextClose c], outputContextRef := None\<rparr>)"

definition clear_sources :: "session \<Rightarrow> session" where
  "clear_sources s = (stop_sources s)\<lparr>scheduledSourcesRef := []\<rparr>"

definition reset_state :: "session \<Rightarrow> session" where
  "reset_state s =
     s\<lparr>inputAnalyserRef := None, outputAnalyserRef := None,
       isConnected := False, isSpeaking := False, volume := 0, nextStartTimeRef := 0\<rparr>"

definition cleanup :: "session \<Rightarrow> session" where
  "cleanup s =
     reset_state (close_output (close_input (clear_sources
       (release_stream (release_source (release_processor s))))))"

subsection \<open>\<open>connect\<close>\<close>

text \<open>
  What \<open>connect\<close> reads from outside: \<open>process.env.API_KEY\<close> (absent, or a string
  that may be empty) and the outcome of \<open>getUserMedia\<close> (granted, or rejected with an
  error whose \<open>message\<close> may be empty). Of the calls inside the \<open>try\<close>,
  \<open>getUserMedia\<close> is the one whose failure is modelled; the \<open>catch\<close> logs the
  error, shows its message and runs \<open>cleanup\<close>. The two contexts, the two analysers,
  the stream, the client and the session each get a fresh name.
\<close>

datatype media_result = Granted | Denied string

record environment =
  apiKey :: "string option"
  userMedia :: media_result

definition truthy :: "string option \<Rightarrow> bool" where
  "truthy v = (case v of None \<Rightarrow> False | Some str \<Rightarrow> str \<noteq> [])"

definition connect :: "environment \<Rightarrow> session \<Rightarrow> session" where
  "connect env s =
     (if \<not> truthy (apiKey env) then s\<lparr>error := Some ''API Key missing''\<rparr>
      else
        let s1 = s\<lparr>error := None\<rparr>;
            h = fresh s1;
            s2 = s1\<lparr>inputContextRef := Some h, inputAnalyserRef := Some (h + 1),
                    outputContextRef := Some (h + 2), outputAnalyserRef := Some (h + 3),
                    fresh := h + 4\<rparr>;
            s3 = s2\<lparr>trace := trace s2 @ [GetUserMedia]\<rparr>
        in case userMedia env of
             Denied msg \<Rightarrow>
               cleanup (s3\<lparr>console := console s3 @ [msg],
                          error := Some (if msg \<noteq> [] then msg
                                         else ''Failed to connect microphone'')\<rparr>)
           | Granted \<Rightarrow>
               let k = fresh s3
               in s3\<lparr>audioStreamRef := Some k, clientRef := Some (k + 1),
                      sessionPromiseRef := Some (k + 2), fresh := k + 3,
                      trace := trace s3 @ [LiveConnect (k + 2)]\<rparr>)"

subsection \<open>The session callbacks\<close>

definition onopen :: "session \<Rightarrow> session" where
  "onopen s =
     (let s1 = s\<lparr>console := console s @ [''Live Session Opened''], isConnected := True\<rparr>
      in case (inputContextRef s1, audioStreamRef s1) of
           (Some c, Some m) \<Rightarrow>
             let k = fresh s1
             in s1\<lparr>sourceNodeRef := Some k, scriptProcessorRef := Some (k + 1),
                    fresh := k + 2\<rparr>
         | _ \<Rightarrow> s1)"

text \<open>
  \<open>processor.onaudioprocess\<close>: the loop that sums the squares, the root mean square,
  the volume update, and the chunk sent to the session when there is one (the encoding
  \<open>createPcmBlob\<close> of the block is left out of the trace entry). The processor is
  created with a buffer of 4096 samples; on an empty block JavaScript would compute
  \<open>0 / 0\<close>, which is \<open>NaN\<close> there and 0 here, so what is proved about the volume
  is proved for blocks that are \<open>valid_frame\<close>s.
\<close>

definition rms :: "real list \<Rightarrow> real" where
  "rms inputData =
     sqrt (foldl (\<lambda>sum x. sum + x * x) 0 inputData / real (length inputData))"

definition onaudioprocess :: "real list \<Rightarrow> session \<Rightarrow> session" where
  "onaudioprocess inputData s =
     (let s1 = s\<lparr>volume := max 0.1 (volume s * 0.8 + rms inputData * 2)\<rparr>
      in case sessionPromiseRef s1 of
           None \<Rightarrow> s1
         | Some p \<Rightarrow> s1\<lparr>trace := trace s1 @ [SendRealtimeInput p inputData]\<rparr>)"

text \<open>
  The listener that \<open>onmessage\<close> registers on each source for the \<open>ended\<close> event.
\<close>

definition onended :: "node \<Rightarrow> session \<Rightarrow> session" where
  "onended source s =
     (let s1 = s\<lparr>scheduledSourcesRef := removeAll source (scheduledSourcesRef s)\<rparr>
      in if length (scheduledSourcesRef s1) = 0 then s1\<lparr>isSpeaking := False\<rparr> else s1)"

text \<open>
  \<open>onmessage\<close>, audio branch. The decoder \<open>decodeAudioData(decodeBase64(data), ctx,
  24000, 1)\<close> lives in \<open>utils/audio\<close>; it is a parameter here, returning the buffer or
  the exception it raised. The \<open>catch\<close> of the source logs and goes on.
\<close>

definition play_audio ::
  "(string \<Rightarrow> exn + audio_buffer) \<Rightarrow> real \<Rightarrow> string \<Rightarrow> session \<Rightarrow> session" where
  "play_audio decodeAudioData currentTime base64Audio s =
     (let s1 = s\<lparr>isSpeaking := True\<rparr>;
          s2 = s1\<lparr>nextStartTimeRef := max (nextStartTimeRef s1) currentTime\<rparr>
      in case decodeAudioData base64Audio of
           Inl err \<Rightarrow> s2\<lparr>console := console s2 @ [''Audio decode error'']\<rparr>
         | Inr audioBuffer \<Rightarrow>
             let source = fresh s2;
                 s3 = s2\<lparr>fresh := Suc source\<rparr>;
                 s4 = s3\<lparr>playing := insert source (playing s3),
                         trace := trace s3 @
                           [SourceStart source (nextStartTimeRef s3) (duration audioBuffer)]\<rparr>;
                 s5 = s4\<lparr>scheduledSourcesRef := set_add source (scheduledSourcesRef s4)\<rparr>
             in s5\<lparr>nextStartTimeRef := nextStartTimeRef s5 + duration audioBuffer\<rparr>)"

text \<open>\<open>onmessage\<close>, interruption branch.\<close>

definition interrupt :: "session \<Rightarrow> session" where
  "interrupt s =
     (let s1 = s\<lparr>console := console s @ [''Model interrupted'']\<rparr>;
          s2 = clear_sources s1
      in s2\<lparr>nextStartTimeRef := 0, isSpeaking := False\<rparr>)"

definition onmessage ::
  "(string \<Rightarrow> exn + audio_buffer) \<Rightarrow> real \<Rightarrow> server_message \<Rightarrow> session \<Rightarrow> session" where
  "onmessage decodeAudioData currentTime message s =
     (let s1 = (if truthy (inlineData message) \<and> outputContextRef s \<noteq> None
                then play_audio decodeAudioData currentTime (the (inlineData message)) s
                else s)
      in if interrupted message then interrupt s1 else s1)"

definition onclose :: "session \<Rightarrow> session" where
  "onclose s = cleanup (s\<lparr>console := console s @ [''Live Session Closed'']\<rparr>)"

definition onerror :: "session \<Rightarrow> session" where
  "onerror s =
     cleanup (s\<lparr>console := console s @ [''Live Session Error''],
                error := Some ''Connection error. Please try again.''\<rparr>)"

subsection \<open>Events and runs\<close>

text \<open>
  What can happen to the hook: the user connects or disconnects, the session calls one
  of its four callbacks, the script processor delivers a block, a source ends (the
  browser then no longer plays it, and the listener runs). A message carries the
  reading of \<open>ctx.currentTime\<close> at which it is handled. A run is any list of events:
  more orders than a browser produces, so what holds of all runs holds of the real ones.
\<close>

datatype event =
    Connect environment
  | Disconnect
  | OnOpen
  | OnMessage real server_message
  | OnClose
  | OnError
  | AudioProcess "real list"
  | Ended node

fun step :: "(string \<Rightarrow> exn + audio_buffer) \<Rightarrow> session \<Rightarrow> event \<Rightarrow> session" where
  "step dec s (Connect env) = connect env s"
| "step dec s Disconnect = cleanup s"
| "step dec s OnOpen = onopen s"
| "step dec s (OnMessage t m) = onmessage dec t m s"
| "step dec s OnClose = onclose s"
| "step dec s OnError = onerror s"
| "step dec s (AudioProcess xs) = onaudioprocess xs s"
| "step dec s (Ended n) = onended n (s\<lparr>playing := playing s - {n}\<rparr>)"

definition run :: "(string \<Rightarrow> exn + audio_buffer) \<Rightarrow> session \<Rightarrow> event list \<Rightarrow> session" where
  "run dec s evs = foldl (step dec) s evs"

subsection \<open>Reading the trace\<close>

text \<open>
  The calls that give a resource back: disconnecting the processor or the microphone
  source, stopping the tracks of the stream, closing a context, stopping a buffer source.
  \<open>target\<close> is the object the call is made on.
\<close>

fun is_release :: "effect \<Rightarrow> bool" where
  "is_release (ProcessorDisconnect p) = True"
| "is_release (SourceDisconnect n) = True"
| "is_release (TrackStop m) = True"
| "is_release (ContextClose c) = True"
| "is_release (SourceStop n) = True"
| "is_release e = False"

fun target :: "effect \<Rightarrow> nat" where
  "target (ProcessorDisconnect p) = p"
| "target (SourceDisconnect n) = n"
| "target (TrackStop m) = m"
| "target (ContextClose c) = c"
| "target (SourceStop n) = n"
| "target e = 0"

definition releases :: "session \<Rightarrow> effect list" where
  "releases s = filter is_release (trace s)"

text \<open>
  The calls a handler added to the trace; the stops a \<open>forEach\<close> over the sources
  \<open>ns\<close> performs when the sources in \<open>P\<close> are playing; the calls one \<open>cleanup\<close>
  makes on the audio graph, in their order.
\<close>

definition effects_since :: "session \<Rightarrow> session \<Rightarrow> effect list" where
  "effects_since s s' = drop (length (trace s)) (trace s')"

fun stops :: "node set \<Rightarrow> node list \<Rightarrow> effect list" where
  "stops P [] = []"
| "stops P (n # ns) = (if n \<in> P then SourceStop n # stops (P - {n}) ns else stops P ns)"

definition cleanup_calls :: "session \<Rightarrow> effect list" where
  "cleanup_calls s =
     (case scriptProcessorRef s of None \<Rightarrow> [] | Some p \<Rightarrow> [ProcessorDisconnect p]) @
     (case sourceNodeRef s of None \<Rightarrow> [] | Some n \<Rightarrow> [SourceDisconnect n]) @
     (case audioStreamRef s of None \<Rightarrow> [] | Some m \<Rightarrow> [TrackStop m]) @
     stops (playing s) (scheduledSourcesRef s) @
     (case inputContextRef s of None \<Rightarrow> [] | Some c \<Rightarrow> [ContextClose c]) @
     (case outputContextRef s of None \<Rightarrow> [] | Some c \<Rightarrow> [ContextClose c])"

text \<open>
  The playback schedule: start time and duration of every \<open>source.start\<close>, in the
  order of the calls. A schedule is gapless when each buffer starts where the one before
  it ends; \<open>timeline t ds\<close> is the gapless schedule that starts at \<open>t\<close> and plays
  buffers of the durations \<open>ds\<close>.
\<close>

fun schedule :: "effect list \<Rightarrow> (real \<times> real) list" where
  "schedule [] = []"
| "schedule (SourceStart n t d # es) = (t, d) # schedule es"
| "schedule (e # es) = schedule es"

fun gapless :: "(real \<times> real) list \<Rightarrow> bool" where
  "gapless [] = True"
| "gapless [x] = True"
| "gapless ((t, d) # (t', d') # rest) = (t' = t + d \<and> gapless ((t', d') # rest))"

fun timeline :: "real \<Rightarrow> real list \<Rightarrow> (real \<times> real) list" where
  "timeline t [] = []"
| "timeline t (d # ds) = (t, d) # timeline (t + d) ds"

subsection \<open>Messages, bursts and runs\<close>

text \<open>
  A message that carries audio only, the events of a burst of such messages (arrival
  time and payload), and the durations their payloads decode to.
\<close>

definition chunk :: "string \<Rightarrow> server_message" where
  "chunk b = \<lparr>inlineData = Some b, interrupted = False\<rparr>"

definition arrivals :: "(real \<times> string) list \<Rightarrow> event list" where
  "arrivals bs = map (\<lambda>(t, b). OnMessage t (chunk b)) bs"

definition decodes :: "(string \<Rightarrow> exn + audio_buffer) \<Rightarrow> string \<Rightarrow> bool" where
  "decodes dec b = (case dec b of Inl e \<Rightarrow> False | Inr buf \<Rightarrow> b \<noteq> [])"

definition decoded_duration :: "(string \<Rightarrow> exn + audio_buffer) \<Rightarrow> string \<Rightarrow> real" where
  "decoded_duration dec b = (case dec b of Inl e \<Rightarrow> 0 | Inr buf \<Rightarrow> duration buf)"

text \<open>
  A burst is on time when every chunk is handled while the output clock has not yet
  reached the timeline position \<open>nextStartTimeRef\<close>.
\<close>

fun on_time ::
  "(string \<Rightarrow> exn + audio_buffer) \<Rightarrow> session \<Rightarrow> (real \<times> string) list \<Rightarrow> bool" where
  "on_time dec s [] = True"
| "on_time dec s ((t, b) # rest) =
     (t \<le> nextStartTimeRef s \<and> on_time dec (onmessage dec t (chunk b) s) rest)"

text \<open>
  An event that, if it is a message, is handled no earlier than clock reading \<open>t\<close>; an
  event whose audio, if it has any, decodes.
\<close>

fun not_before :: "real \<Rightarrow> event \<Rightarrow> bool" where
  "not_before t (OnMessage t' m) = (t \<le> t')"
| "not_before t ev = True"

fun decodable_event :: "(string \<Rightarrow> exn + audio_buffer) \<Rightarrow> event \<Rightarrow> bool" where
  "decodable_event dec (OnMessage t m) =
     (if truthy (inlineData m) then decodes dec (the (inlineData m)) else True)"
| "decodable_event dec ev = True"

text \<open>
  The block a script processor created by \<open>createScriptProcessor(4096, 1, 1)\<close>
  delivers: 4096 samples, each in \<open>[-1, 1]\<close>.
\<close>

definition valid_frame :: "real list \<Rightarrow> bool" where
  "valid_frame xs = (length xs = 4096 \<and> list_all (\<lambda>x. - 1 \<le> x \<and> x \<le> 1) xs)"

fun valid_event :: "event \<Rightarrow> bool" where
  "valid_event (AudioProcess xs) = valid_frame xs"
| "valid_event ev = True"

subsection \<open>Predicates on sessions\<close>

text \<open>
  Ownership of the audio resources: nothing is given back twice, every object named in
  a release was created before, and whatever a ref (or the set of playing sources) still
  holds has not been given back yet.
\<close>

definition own :: "session \<Rightarrow> bool" where
  "own s \<longleftrightarrow>
     distinct (releases s) \<and>
     (\<forall>e \<in> set (trace s). is_release e \<longrightarrow> target e < fresh s) \<and>
     (\<forall>p. scriptProcessorRef s = Some p \<longrightarrow>
        p < fresh s \<and> ProcessorDisconnect p \<notin> set (trace s)) \<and>
     (\<forall>n. sourceNodeRef s = Some n \<longrightarrow>
        n < fresh s \<and> SourceDisconnect n \<notin> set (trace s)) \<and>
     (\<forall>m. audioStreamRef s = Some m \<longrightarrow>
        m < fresh s \<and> TrackStop m \<notin> set (trace s)) \<and>
     (\<forall>c. inputContextRef s = Some c \<longrightarrow>
        c < fresh s \<and> ContextClose c \<notin> set (trace s)) \<and>
     (\<forall>c. outputContextRef s = Some c \<longrightarrow>
        c < fresh s \<and> ContextClose c \<notin> set (trace s)) \<and>
     (\<forall>n \<in> playing s. n < fresh s \<and> SourceStop n \<notin> set (trace s)) \<and>
     (inputContextRef s = None \<or> inputContextRef s \<noteq> outputContextRef s)"

text \<open>A session that holds nothing: the state \<open>cleanup\<close> leaves behind.\<close>

definition quiescent :: "session \<Rightarrow> bool" where
  "quiescent s \<longleftrightarrow>
     scriptProcessorRef s = None \<and> sourceNodeRef s = None \<and> audioStreamRef s = None \<and>
     scheduledSourcesRef s = [] \<and> inputContextRef s = None \<and> outputContextRef s = None \<and>
     inputAnalyserRef s = None \<and> outputAnalyserRef s = None \<and>
     \<not> isConnected s \<and> \<not> isSpeaking s \<and> volume s = 0 \<and> nextStartTimeRef s = 0"

text \<open>\<open>isSpeaking\<close> says whether a source is scheduled.\<close>

definition speaking_matches :: "session \<Rightarrow> bool" where
  "speaking_matches s \<longleftrightarrow> (isSpeaking s \<longleftrightarrow> scheduledSourcesRef s \<noteq> [])"

text \<open>
  Two sessions are alike at clock reading \<open>t\<close> when they differ at most in
  \<open>isSpeaking\<close>, in the console and in \<open>nextStartTimeRef\<close>, and their timeline
  positions agree from \<open>t\<close> on.
\<close>

definition alike :: "real \<Rightarrow> session \<Rightarrow> session \<Rightarrow> bool" where
  "alike t s1 s0 \<longleftrightarrow>
     s1 = s0\<lparr>isSpeaking := isSpeaking s1, nextStartTimeRef := nextStartTimeRef s1,
            console := console s1\<rparr> \<and>
     max (nextStartTimeRef s1) t = max (nextStartTimeRef s0) t"

subsection \<open>The decoder of \<open>utils/audio\<close>\<close>

text \<open>
  Modelled from the spec: \<open>decodeBase64\<close> and \<open>decodeAudioData\<close> of
  \<open>utils/audio\<close>, which is not among the sources. The spec (4.2): "given a
  textually-encoded payload, decode to raw bytes, reinterpret every 2 bytes as a
  little-endian signed 16-bit integer [...] and materialize as a playback-rate
  AudioFrame-equivalent object with the given channel count and sample rate (24000 Hz,
  mono). Fails with DecodeError if the decoded byte length is not a multiple of 2".
  Base64 is the alphabet of RFC 4648 with up to two trailing \<open>=\<close>. Of the buffer only
  the duration is kept, the number of samples over the sample rate. The properties of
  the message handler are proved for every decoder; this one supplies concrete payloads.
\<close>

definition b64_digit :: "char \<Rightarrow> nat option" where
  "b64_digit c =
     (let n = (of_char c :: nat)
      in if 65 \<le> n \<and> n \<le> 90 then Some (n - 65)
         else if 97 \<le> n \<and> n \<le> 122 then Some (n - 71)
         else if 48 \<le> n \<and> n \<le> 57 then Some (n + 4)
         else if n = 43 then Some 62
         else if n = 47 then Some 63
         else None)"

fun b64_digits :: "string \<Rightarrow> nat list option" where
  "b64_digits [] = Some []"
| "b64_digits (c # cs) =
     (case b64_digit c of
        None \<Rightarrow> None
      | Some v \<Rightarrow> (case b64_digits cs of None \<Rightarrow> None | Some vs \<Rightarrow> Some (v # vs)))"

fun b64_bytes :: "nat list \<Rightarrow> nat list option" where
  "b64_bytes (a # b # c # d # rest) =
     (case b64_bytes rest of
        None \<Rightarrow> None
      | Some bs \<Rightarrow>
          Some ([a * 4 + b div 16, (b mod 16) * 16 + c div 4, (c mod 4) * 64 + d] @ bs))"
| "b64_bytes [a, b, c] = Some [a * 4 + b div 16, (b mod 16) * 16 + c div 4]"
| "b64_bytes [a, b] = Some [a * 4 + b div 16]"
| "b64_bytes [a] = None"
| "b64_bytes [] = Some []"

fun strip_padding :: "string \<Rightarrow> string" where
  "strip_padding [] = []"
| "strip_padding (c # cs) =
     (if cs = ''=='' \<or> cs = ''='' then [c] else c # strip_padding cs)"

definition decodeBase64 :: "string \<Rightarrow> exn + nat list" where
  "decodeBase64 str =
     (case b64_digits (strip_padding str) of
        None \<Rightarrow> Inl DecodeError
      | Some vs \<Rightarrow> (case b64_bytes vs of None \<Rightarrow> Inl DecodeError | Some bs \<Rightarrow> Inr bs))"

definition decodeAudioData :: "nat list \<Rightarrow> nat \<Rightarrow> exn + audio_buffer" where
  "decodeAudioData bytes sampleRate =
     (if length bytes mod 2 \<noteq> 0 then Inl DecodeError
      else Inr \<lparr>duration = real (length bytes div 2) / real sampleRate\<rparr>)"

definition decoder :: "string \<Rightarrow> exn + audio_buffer" where
  "decoder base64Audio =
     (case decodeBase64 base64Audio of
        Inl e \<Rightarrow> Inl e
      | Inr bytes \<Rightarrow> decodeAudioData bytes 24000)"

subsection \<open>The sample arithmetic of \<open>utils/audio\<close>\<close>

text \<open>
  Modelled from the spec: what \<open>createPcmBlob\<close> and \<open>decodeAudioData\<close> of
  \<open>utils/audio\<close>, which is not among the sources, do to one sample. The spec (4.1):
  "each sample clamped to [-1, 1] then scaled to the signed 16-bit range"; (4.2):
  "reinterpret every 2 bytes as a little-endian signed 16-bit integer, normalize to
  floating-point [-1, 1]". It names neither the factor of the scaling nor what becomes of
  the fraction and of a product of 32768. Two encoders fit its words, both dropping the
  fraction as JavaScript's conversion to an integer does: one scales by 32768 and
  saturates at 32767, the other scales negative samples by 32768 and the others by
  32767. The decoder divides by 32768. Bytes and base64 lose nothing and are left out.
\<close>

definition clamp :: "real \<Rightarrow> real" where
  "clamp x = max (- 1) (min 1 x)"

definition trunc :: "real \<Rightarrow> int" where
  "trunc y = (if 0 \<le> y then \<lfloor>y\<rfloor> else \<lceil>y\<rceil>)"

definition encode_saturating :: "real \<Rightarrow> int" where
  "encode_saturating x = min 32767 (trunc (clamp x * 32768))"

definition encode_asymmetric :: "real \<Rightarrow> int" where
  "encode_asymmetric x =
     trunc (if clamp x < 0 then clamp x * 32768 else clamp x * 32767)"

definition decode_sample :: "int \<Rightarrow> real" where
  "decode_sample i = real_of_int i / 32768"

subsection \<open>Concrete sessions\<close>

text \<open>
  A session that connected with a key and a granted microphone and was opened; the
  same session with two buffers scheduled, after one message whose payload does not
  decode, and after one block of 4096 samples at full scale. The payload \<open>AAAAAAAA\<close>
  is six zero bytes: three samples, 1/8000 s at 24000 Hz. \<open>AAAA\<close> is three bytes, which
  is no whole number of 16-bit samples. \<open>half_second\<close> is 32000 base64 characters:
  24000 zero bytes, 12000 samples.
\<close>

definition granted :: environment where
  "granted = \<lparr>apiKey = Some ''key'', userMedia = Granted\<rparr>"

definition opened :: session where
  "opened = run decoder initial [Connect granted, OnOpen]"

definition two_scheduled :: session where
  "two_scheduled =
     run decoder opened [OnMessage 1 (chunk ''AAAAAAAA''), OnMessage 1 (chunk ''AAAAAAAA'')]"

definition after_corrupt_chunk :: session where
  "after_corrupt_chunk =
     run decoder initial [Connect granted, OnOpen, OnMessage 1 (chunk ''AAAA'')]"

definition after_loud_block :: session where
  "after_loud_block =
     run decoder initial [Connect granted, OnOpen, AudioProcess (replicate 4096 1)]"

definition half_second :: string where
  "half_second = replicate 32000 CHR ''A''"

section \<open>The visualizer loop of \<open>VoiceView\<close>\<close>

text \<open>
  \<open>render\<close> resizes and clears the canvas, advances \<open>timeRef\<close>, draws, and as its
  last statement asks for the next animation frame. Nothing in it catches an exception.
  The drawing is made of calls on the browser's 2D context; their outcome in the tick
  that runs at a given value of \<open>timeRef\<close> is the parameter \<open>canvas\<close>: \<open>None\<close> when
  all of them return, \<open>Some e\<close> when one throws \<open>e\<close>. \<open>render\<close> returns the state it
  leaves and the exception that left it, if any. \<open>frameRequested\<close> says whether a
  callback is waiting for the next display refresh, \<open>ticks\<close> counts the calls of
  \<open>render\<close>, \<open>uncaught\<close> collects the exceptions that reached the browser.
\<close>

record visualizer =
  timeRef :: real
  animationRef :: nat
  frameRequested :: bool
  ticks :: nat
  uncaught :: "exn list"

definition render :: "(real \<Rightarrow> exn option) \<Rightarrow> visualizer \<Rightarrow> visualizer \<times> exn option" where
  "render canvas v =
     (let v1 = v\<lparr>timeRef := timeRef v + 0.01, ticks := Suc (ticks v)\<rparr>
      in case canvas (timeRef v1) of
           Some e \<Rightarrow> (v1, Some e)
         | None \<Rightarrow>
             (v1\<lparr>animationRef := Suc (animationRef v1), frameRequested := True\<rparr>, None))"

text \<open>
  A call of \<open>render\<close> from outside (the effect calls it once, the browser calls it at
  a display refresh): what it threw is reported, what it wrote before stays. A display
  refresh runs the waiting callback, if there is one.
\<close>

definition call_render :: "(real \<Rightarrow> exn option) \<Rightarrow> visualizer \<Rightarrow> visualizer" where
  "call_render canvas v =
     (case render canvas v of
        (v', None) \<Rightarrow> v'
      | (v', Some e) \<Rightarrow> v'\<lparr>uncaught := uncaught v' @ [e]\<rparr>)"

definition refresh :: "(real \<Rightarrow> exn option) \<Rightarrow> visualizer \<Rightarrow> visualizer" where
  "refresh canvas v =
     (if frameRequested v then call_render canvas (v\<lparr>frameRequested := False\<rparr>) else v)"

fun refreshes :: "(real \<Rightarrow> exn option) \<Rightarrow> nat \<Rightarrow> visualizer \<Rightarrow> visualizer" where
  "refreshes canvas 0 v = v"
| "refreshes canvas (Suc n) v = refreshes canvas n (refresh canvas v)"

text \<open>
  The loop as the effect starts it, a canvas on which no call ever throws, and one on
  which a call throws in the second tick only.
\<close>

definition mounted :: visualizer where
  "mounted = \<lparr>timeRef = 0, animationRef = 0, frameRequested = False, ticks = 0, uncaught = []\<rparr>"

definition steady :: "real \<Rightarrow> exn option" where
  "steady t = None"

definition glitch :: "real \<Rightarrow> exn option" where
  "glitch t = (if t = 0.02 then Some InvalidStateError else None)"

section \<open>Properties of the session\<close>

subsection \<open>Stopping the scheduled sources\<close>

lemma try_stop_fields:
  "try_stop n s = s\<lparr>playing := playing (try_stop n s), trace := trace (try_stop n s)\<rparr>"
  by (simp add: try_stop_def source_stop_def)

lemma stop_list_fields:
  "foldl (\<lambda>st n. try_stop n st) s ns =
     s\<lparr>playing := playing (foldl (\<lambda>st n. try_stop n st) s ns),
       trace := trace (foldl (\<lambda>st n. try_stop n st) s ns)\<rparr>"
proof (induction ns arbitrary: s)
  case Nil
  show ?case by simp
next
  case (Cons n ns)
  have "foldl (\<lambda>st n. try_stop n st) (try_stop n s) ns =
          (try_stop n s)\<lparr>playing := playing (foldl (\<lambda>st n. try_stop n st) (try_stop n s) ns),
            trace := trace (foldl (\<lambda>st n. try_stop n st) (try_stop n s) ns)\<rparr>"
    by (rule Cons.IH)
  also have "\<dots> = s\<lparr>playing := playing (foldl (\<lambda>st n. try_stop n st) (try_stop n s) ns),
            trace := trace (foldl (\<lambda>st n. try_stop n st) (try_stop n s) ns)\<rparr>"
    by (subst try_stop_fields) simp
  finally show ?case by simp
qed

lemma playing_try_stop: "playing (try_stop n s) = playing s - {n}"
  by (simp add: try_stop_def source_stop_def)

lemma playing_stop_list: "playing (foldl (\<lambda>st n. try_stop n st) s ns) = playing s - set ns"
  by (induction ns arbitrary: s) (auto simp: playing_try_stop)

lemma trace_try_stop:
  "trace (try_stop n s) = trace s @ (if n \<in> playing s then [SourceStop n] else [])"
  by (simp add: try_stop_def source_stop_def)

lemma trace_stop_list:
  "trace (foldl (\<lambda>st n. try_stop n st) s ns) = trace s @ stops (playing s) ns"
  by (induction ns arbitrary: s) (simp_all add: trace_try_stop playing_try_stop)

lemma stops_complete: "n \<in> set ns \<Longrightarrow> n \<in> P \<Longrightarrow> SourceStop n \<in> set (stops P ns)"
proof (induction ns arbitrary: P)
  case Nil
  then show ?case by simp
next
  case (Cons a ns)
  show ?case
  proof (cases "n = a")
    case True
    with Cons.prems show ?thesis by simp
  next
    case False
    with Cons.prems have "n \<in> set ns" "n \<in> P - {a}" by auto
    with Cons.IH Cons.prems(2) show ?thesis by simp
  qed
qed

lemma stop_sources_eq:
  "stop_sources s =
     s\<lparr>playing := playing s - set (scheduledSourcesRef s),
       trace := trace s @ stops (playing s) (scheduledSourcesRef s)\<rparr>"
  unfolding stop_sources_def
  by (subst stop_list_fields) (simp add: playing_stop_list trace_stop_list)

lemma clear_sources_eq:
  "clear_sources s =
     s\<lparr>scheduledSourcesRef := [], playing := playing s - set (scheduledSourcesRef s),
       trace := trace s @ stops (playing s) (scheduledSourcesRef s)\<rparr>"
  by (simp add: clear_sources_def stop_sources_eq)

lemma interrupt_eq:
  "interrupt s =
     s\<lparr>console := console s @ [''Model interrupted''], scheduledSourcesRef := [],
       playing := playing s - set (scheduledSourcesRef s),
       trace := trace s @ stops (playing s) (scheduledSourcesRef s),
       nextStartTimeRef := 0, isSpeaking := False\<rparr>"
  by (simp add: interrupt_def clear_sources_eq)

lemma cleanup_quiescent_id: "quiescent s \<Longrightarrow> cleanup s = s"
  by (simp add: quiescent_def cleanup_def release_processor_def release_source_def
      release_stream_def clear_sources_eq close_input_def close_output_def
      reset_state_def)

lemma quiescent_cleanup: "quiescent (cleanup s)"
  by (simp add: cleanup_def clear_sources_eq quiescent_def release_processor_def release_source_def
      release_stream_def close_input_def close_output_def
      reset_state_def split: option.splits)

subsection \<open>\<open>cleanup\<close> in one step\<close>

lemma release_processor_eq:
  "release_processor s =
     s\<lparr>trace := trace s @ (case scriptProcessorRef s of None \<Rightarrow> [] | Some p \<Rightarrow> [ProcessorDisconnect p]),
       scriptProcessorRef := None\<rparr>"
  by (simp add: release_processor_def split: option.splits)

lemma release_source_eq:
  "release_source s =
     s\<lparr>trace := trace s @ (case sourceNodeRef s of None \<Rightarrow> [] | Some n \<Rightarrow> [SourceDisconnect n]),
       sourceNodeRef := None\<rparr>"
  by (simp add: release_source_def split: option.splits)

lemma release_stream_eq:
  "release_stream s =
     s\<lparr>trace := trace s @ (case audioStreamRef s of None \<Rightarrow> [] | Some m \<Rightarrow> [TrackStop m]),
       audioStreamRef := None\<rparr>"
  by (simp add: release_stream_def split: option.splits)

lemma close_input_eq:
  "close_input s =
     s\<lparr>trace := trace s @ (case inputContextRef s of None \<Rightarrow> [] | Some c \<Rightarrow> [ContextClose c]),
       inputContextRef := None\<rparr>"
  by (simp add: close_input_def split: option.splits)

lemma close_output_eq:
  "close_output s =
     s\<lparr>trace := trace s @ (case outputContextRef s of None \<Rightarrow> [] | Some c \<Rightarrow> [ContextClose c]),
       outputContextRef := None\<rparr>"
  by (simp add: close_output_def split: option.splits)

lemma cleanup_eq:
  "cleanup s =
     s\<lparr>scriptProcessorRef := None, sourceNodeRef := None, audioStreamRef := None,
       scheduledSourcesRef := [], playing := playing s - set (scheduledSourcesRef s),
       inputContextRef := None, outputContextRef := None,
       inputAnalyserRef := None, outputAnalyserRef := None,
       isConnected := False, isSpeaking := False, volume := 0, nextStartTimeRef := 0,
       trace := trace s @ cleanup_calls s\<rparr>"
  by (simp add: cleanup_def release_processor_eq release_source_eq release_stream_eq
      clear_sources_eq close_input_eq close_output_eq reset_state_def cleanup_calls_def)

subsection \<open>Every resource is given back at most once\<close>

lemma own_initial: "own initial"
  by (simp add: own_def initial_def releases_def)

lemma own_release_processor: "own s \<Longrightarrow> own (release_processor s)"
  by (auto simp: own_def release_processor_def releases_def split: option.splits)

lemma own_release_source: "own s \<Longrightarrow> own (release_source s)"
  by (auto simp: own_def release_source_def releases_def split: option.splits)

lemma own_release_stream: "own s \<Longrightarrow> own (release_stream s)"
  by (auto simp: own_def release_stream_def releases_def split: option.splits)

lemma own_close_input: "own s \<Longrightarrow> own (close_input s)"
  by (auto simp: own_def close_input_def releases_def split: option.splits)

lemma own_close_output: "own s \<Longrightarrow> own (close_output s)"
  by (auto simp: own_def close_output_def releases_def split: option.splits)

lemma own_reset_state: "own s \<Longrightarrow> own (reset_state s)"
  by (auto simp: own_def reset_state_def releases_def split: option.splits)

lemma own_try_stop: "own s \<Longrightarrow> own (try_stop n s)"
  by (auto simp: own_def try_stop_def source_stop_def releases_def split: option.splits)

lemma own_stop_list: "own s \<Longrightarrow> own (foldl (\<lambda>st n. try_stop n st) s ns)"
  by (induction ns arbitrary: s) (simp_all add: own_try_stop)

lemma own_sources_update: "own (s\<lparr>scheduledSourcesRef := ns\<rparr>) = own s"
  by (simp add: own_def releases_def)

lemma own_clear_sources: "own s \<Longrightarrow> own (clear_sources s)"
  by (simp add: clear_sources_def stop_sources_def own_sources_update own_stop_list)

lemma own_cleanup: "own s \<Longrightarrow> own (cleanup s)"
  by (simp add: cleanup_def own_release_processor own_release_source own_release_stream
      own_clear_sources own_close_input own_close_output own_reset_state)

lemma own_console_update: "own (s\<lparr>console := c\<rparr>) = own s"
  by (simp add: own_def releases_def)

lemma own_error_update: "own (s\<lparr>error := c\<rparr>) = own s"
  by (simp add: own_def releases_def)

lemma own_connect: "own s \<Longrightarrow> own (connect env s)"
proof (cases "truthy (apiKey env)")
  case False
  assume "own s"
  with False show ?thesis by (simp add: connect_def own_error_update)
next
  case True
  assume o: "own s"
  let ?s3 = "s\<lparr>error := None, inputContextRef := Some (fresh s),
      inputAnalyserRef := Some (fresh s + 1), outputContextRef := Some (fresh s + 2),
      outputAnalyserRef := Some (fresh s + 3), fresh := fresh s + 4,
      trace := trace s @ [GetUserMedia]\<rparr>"
  have o3: "own ?s3"
    using o by (auto simp: own_def releases_def)
  show ?thesis
  proof (cases "userMedia env")
    case Granted
    with True o3 show ?thesis
      by (auto simp: connect_def Let_def own_def releases_def)
  next
    case (Denied msg)
    have "own (cleanup (?s3\<lparr>console := console ?s3 @ [msg],
                          error := Some (if msg \<noteq> [] then msg
                                         else ''Failed to connect microphone'')\<rparr>))"
      by (rule own_cleanup) (simp only: own_console_update own_error_update o3)
    with True Denied show ?thesis by (simp add: connect_def Let_def)
  qed
qed

lemma own_onopen: "own s \<Longrightarrow> own (onopen s)"
  by (auto simp: onopen_def Let_def own_def releases_def split: option.splits)

lemma own_onaudioprocess: "own s \<Longrightarrow> own (onaudioprocess xs s)"
  by (auto simp: onaudioprocess_def Let_def own_def releases_def split: option.splits)

lemma own_onended: "own s \<Longrightarrow> own (onended n (s\<lparr>playing := playing s - {n}\<rparr>))"
  by (auto simp: onended_def Let_def own_def releases_def)

lemma own_play_audio: "own s \<Longrightarrow> own (play_audio dec t b s)"
  by (auto simp: play_audio_def Let_def own_def releases_def split: sum.splits)

lemma own_interrupt: "own s \<Longrightarrow> own (interrupt s)"
proof -
  assume "own s"
  then have "own (clear_sources (s\<lparr>console := console s @ [''Model interrupted'']\<rparr>))"
    by (simp add: own_clear_sources own_console_update)
  then show ?thesis
    by (simp add: interrupt_def Let_def own_def releases_def)
qed

lemma own_onmessage: "own s \<Longrightarrow> own (onmessage dec t m s)"
  by (simp add: onmessage_def Let_def own_play_audio own_interrupt)

lemma own_step: "own s \<Longrightarrow> own (step dec s ev)"
  by (cases ev)
    (simp_all add: own_connect own_cleanup own_onopen own_onmessage onclose_def onerror_def
      own_console_update own_error_update own_onaudioprocess own_onended)

lemma own_run: "own s \<Longrightarrow> own (run dec s evs)"
  unfolding run_def by (induction evs arbitrary: s) (simp_all add: own_step)

subsection \<open>The message handler\<close>

lemma play_audio_decoded:
  "dec b = Inr buf \<Longrightarrow>
   play_audio dec t b s =
     s\<lparr>isSpeaking := True,
       nextStartTimeRef := max (nextStartTimeRef s) t + duration buf,
       fresh := Suc (fresh s),
       playing := insert (fresh s) (playing s),
       trace := trace s @ [SourceStart (fresh s) (max (nextStartTimeRef s) t) (duration buf)],
       scheduledSourcesRef := set_add (fresh s) (scheduledSourcesRef s)\<rparr>"
  by (simp add: play_audio_def Let_def)

lemma play_audio_failed:
  "dec b = Inl e \<Longrightarrow>
   play_audio dec t b s =
     s\<lparr>isSpeaking := True, nextStartTimeRef := max (nextStartTimeRef s) t,
       console := console s @ [''Audio decode error'']\<rparr>"
  by (simp add: play_audio_def Let_def)

lemma onmessage_chunk:
  "b \<noteq> [] \<Longrightarrow> outputContextRef s \<noteq> None \<Longrightarrow>
   onmessage dec t (chunk b) s = play_audio dec t b s"
  by (simp add: onmessage_def chunk_def truthy_def)

lemma set_add_set: "set (set_add x xs) = insert x (set xs)"
  by (auto simp: set_add_def)

lemma play_audio_grows:
  "set (scheduledSourcesRef s) \<subseteq> set (scheduledSourcesRef (play_audio dec t b s)) \<and>
   playing s \<subseteq> playing (play_audio dec t b s) \<and>
   outputContextRef (play_audio dec t b s) = outputContextRef s \<and>
   (\<exists>es. trace (play_audio dec t b s) = trace s @ es)"
  by (cases "dec b") (auto simp: play_audio_decoded play_audio_failed set_add_set)

text \<open>
  What \<open>onmessage\<close> does before it looks at \<open>interrupted\<close>: the state after the audio
  branch, taken or not.
\<close>

lemma onmessage_interrupted:
  assumes "interrupted m"
  obtains s1 es where
    "onmessage dec t m s = interrupt s1"
    "set (scheduledSourcesRef s) \<subseteq> set (scheduledSourcesRef s1)"
    "playing s \<subseteq> playing s1"
    "outputContextRef s1 = outputContextRef s"
    "trace s1 = trace s @ es"
proof (cases "truthy (inlineData m) \<and> outputContextRef s \<noteq> None")
  case True
  let ?s1 = "play_audio dec t (the (inlineData m)) s"
  obtain es where "trace ?s1 = trace s @ es"
    using play_audio_grows by blast
  moreover have "onmessage dec t m s = interrupt ?s1"
    using True assms by (simp add: onmessage_def)
  ultimately show ?thesis
    using that [of ?s1 es] play_audio_grows [of s dec t "the (inlineData m)"] by blast
next
  case False
  then have "onmessage dec t m s = interrupt s"
    using assms by (auto simp: onmessage_def)
  then show ?thesis
    using that [of s "[]"] by simp
qed

subsection \<open>The concrete sessions, evaluated\<close>

lemma decoder_odd: "decoder ''AAAA'' = Inl DecodeError"
  by (simp add: decoder_def decodeBase64_def decodeAudioData_def b64_digit_def)

lemma decoder_three: "decoder ''AAAAAAAA'' = Inr \<lparr>duration = 1 / 8000\<rparr>"
  by (simp add: decoder_def decodeBase64_def decodeAudioData_def b64_digit_def)

lemma opened_eq:
  "opened =
     \<lparr> isConnected = True, isSpeaking = False, volume = 0, error = None,
       inputContextRef = Some 0, outputContextRef = Some 2, scriptProcessorRef = Some 8,
       sourceNodeRef = Some 7, audioStreamRef = Some 4, inputAnalyserRef = Some 1,
       outputAnalyserRef = Some 3, nextStartTimeRef = 0, scheduledSourcesRef = [],
       sessionPromiseRef = Some 6, clientRef = Some 5,
       playing = {}, trace = [GetUserMedia, LiveConnect 6],
       console = [''Live Session Opened''], fresh = 9 \<rparr>"
  by (simp add: opened_def run_def connect_def onopen_def granted_def truthy_def initial_def Let_def)

lemma two_scheduled_eq:
  "two_scheduled =
     opened\<lparr>isSpeaking := True, nextStartTimeRef := 1 + 2 / 8000, scheduledSourcesRef := [9, 10],
       playing := {9, 10},
       trace := [GetUserMedia, LiveConnect 6, SourceStart 9 1 (1 / 8000),
                 SourceStart 10 (1 + 1 / 8000) (1 / 8000)],
       fresh := 11\<rparr>"
  by (simp add: two_scheduled_def run_def opened_eq onmessage_chunk play_audio_decoded
      decoder_three set_add_def insert_commute)

subsection \<open>Teardown\<close>

text \<open>
  C2. \<open>cleanup\<close> is a total function of the state (the only call in it that can raise,
  \<open>source.stop()\<close>, sits in a \<open>try\<close> with an empty \<open>catch\<close>). Calling it twice
  leaves the state of calling it once, trace and console included, so the second call
  makes no call on the audio graph. On the state the hook starts in, whatever the error
  message shown, it changes nothing. Over any run of the hook from its initial state,
  no release appears twice in the trace: each processor, microphone source, stream,
  context and buffer source is given back at most once, whichever of \<open>onclose\<close>,
  \<open>onerror\<close>, \<open>disconnect\<close> and the \<open>catch\<close> of \<open>connect\<close> runs, and however often.
\<close>

theorem cleanup_idempotent:
  "cleanup (cleanup s) = cleanup s \<and>
   cleanup (initial\<lparr>error := e\<rparr>) = initial\<lparr>error := e\<rparr> \<and>
   distinct (releases (run dec initial evs))"
proof (intro conjI)
  show "cleanup (cleanup s) = cleanup s"
    by (rule cleanup_quiescent_id) (rule quiescent_cleanup)
  show "cleanup (initial\<lparr>error := e\<rparr>) = initial\<lparr>error := e\<rparr>"
    by (rule cleanup_quiescent_id) (simp add: quiescent_def initial_def)
  have "own (run dec initial evs)"
    by (rule own_run) (rule own_initial)
  then show "distinct (releases (run dec initial evs))"
    by (simp add: own_def)
qed

theorem cleanup_idempotent_witness:
  "cleanup (cleanup two_scheduled) = cleanup two_scheduled \<and>
   effects_since two_scheduled (cleanup two_scheduled) =
     [ProcessorDisconnect 8, SourceDisconnect 7, TrackStop 4, SourceStop 9, SourceStop 10,
      ContextClose 0, ContextClose 2] \<and>
   effects_since (cleanup two_scheduled) (cleanup (cleanup two_scheduled)) = [] \<and>
   cleanup (initial\<lparr>error := Some ''API Key missing''\<rparr>) =
     initial\<lparr>error := Some ''API Key missing''\<rparr> \<and>
   distinct (releases (run decoder initial [Connect granted, OnOpen, Disconnect, OnClose]))"
proof -
  note T = cleanup_idempotent [of two_scheduled "Some ''API Key missing''" decoder
      "[Connect granted, OnOpen, Disconnect, OnClose]"]
  have once: "effects_since two_scheduled (cleanup two_scheduled) =
      [ProcessorDisconnect 8, SourceDisconnect 7, TrackStop 4, SourceStop 9, SourceStop 10,
       ContextClose 0, ContextClose 2]"
    by (simp add: cleanup_eq cleanup_calls_def effects_since_def two_scheduled_eq opened_eq)
  have twice: "effects_since (cleanup two_scheduled) (cleanup (cleanup two_scheduled)) = []"
    by (simp add: T effects_since_def)
  show ?thesis
    using T once twice by simp
qed

subsection \<open>Connecting without a key\<close>

text \<open>
  C6. When \<open>process.env.API_KEY\<close> is absent or empty, \<open>connect\<close> sets the error to
  "API Key missing" and returns: nothing else in the state changes (\<open>isConnected\<close>
  keeps its value, no ref is set) and no call reaches the browser, so \<open>getUserMedia\<close>
  is never asked for the microphone.
\<close>

theorem connect_without_api_key:
  assumes "\<not> truthy (apiKey env)"
  shows "connect env s = s\<lparr>error := Some ''API Key missing''\<rparr> \<and>
         effects_since s (connect env s) = [] \<and>
         isConnected (connect env s) = isConnected s"
  using assms by (simp add: connect_def effects_since_def)

theorem connect_without_api_key_witness:
  "\<not> truthy (apiKey \<lparr>apiKey = Some [], userMedia = Granted\<rparr>) \<and>
   connect \<lparr>apiKey = Some [], userMedia = Granted\<rparr> initial =
     initial\<lparr>error := Some ''API Key missing''\<rparr> \<and>
   effects_since initial (connect \<lparr>apiKey = Some [], userMedia = Granted\<rparr> initial) = [] \<and>
   \<not> isConnected (connect \<lparr>apiKey = Some [], userMedia = Granted\<rparr> initial)"
proof -
  have h: "\<not> truthy (apiKey \<lparr>apiKey = Some [], userMedia = Granted\<rparr>)"
    by (simp add: truthy_def)
  show ?thesis
    using h connect_without_api_key [OF h, of initial] by (simp add: initial_def effects_since_def)
qed

subsection \<open>Interruption\<close>

text \<open>
  C3. A message with \<open>interrupted: true\<close>, handled in any state and at any clock
  reading, with or without audio in it: no source of the scheduled set is playing
  afterwards, and each one that was playing got its \<open>stop()\<close> in this handler (one that
  was not playing raises in \<open>stop()\<close>, which the handler swallows); the set is empty,
  \<open>isSpeaking\<close> is false and \<open>nextStartTimeRef\<close> is 0. The next chunk, handled at
  clock reading \<open>t'\<close> (the output clock is never negative), then starts at \<open>t'\<close>, not at
  the old timeline position. An empty set before the message changes none of this.
\<close>

theorem interrupted_message_resets_playback:
  assumes "interrupted m"
  shows "(\<forall>n \<in> set (scheduledSourcesRef s).
            n \<notin> playing (onmessage dec t m s) \<and>
            (n \<in> playing s \<longrightarrow> SourceStop n \<in> set (effects_since s (onmessage dec t m s)))) \<and>
         scheduledSourcesRef (onmessage dec t m s) = [] \<and>
         \<not> isSpeaking (onmessage dec t m s) \<and>
         nextStartTimeRef (onmessage dec t m s) = 0 \<and>
         (\<forall>t' b buf. 0 \<le> t' \<and> outputContextRef s \<noteq> None \<and> b \<noteq> [] \<and> dec b = Inr buf \<longrightarrow>
            effects_since (onmessage dec t m s)
              (onmessage dec t' (chunk b) (onmessage dec t m s)) =
              [SourceStart (fresh (onmessage dec t m s)) t' (duration buf)])"
proof -
  obtain s1 es where
    eq: "onmessage dec t m s = interrupt s1" and
    sub: "set (scheduledSourcesRef s) \<subseteq> set (scheduledSourcesRef s1)" and
    pl: "playing s \<subseteq> playing s1" and
    ctx: "outputContextRef s1 = outputContextRef s" and
    tr: "trace s1 = trace s @ es"
    using assms by (rule onmessage_interrupted)
  let ?s' = "interrupt s1"
  have stopped: "n \<notin> playing ?s' \<and>
      (n \<in> playing s \<longrightarrow> SourceStop n \<in> set (effects_since s ?s'))"
    if n: "n \<in> set (scheduledSourcesRef s)" for n
  proof
    show "n \<notin> playing ?s'"
      using n sub by (auto simp: interrupt_eq)
    show "n \<in> playing s \<longrightarrow> SourceStop n \<in> set (effects_since s ?s')"
    proof
      assume "n \<in> playing s"
      with n sub pl have "SourceStop n \<in> set (stops (playing s1) (scheduledSourcesRef s1))"
        by (intro stops_complete) auto
      then show "SourceStop n \<in> set (effects_since s ?s')"
        by (simp add: interrupt_eq effects_since_def tr)
    qed
  qed
  have fields: "scheduledSourcesRef ?s' = []" "\<not> isSpeaking ?s'" "nextStartTimeRef ?s' = 0"
    "outputContextRef ?s' = outputContextRef s"
    by (simp_all add: interrupt_eq ctx)
  have next_chunk: "effects_since ?s' (onmessage dec t' (chunk b) ?s') =
      [SourceStart (fresh ?s') t' (duration buf)]"
    if "0 \<le> t'" "outputContextRef s \<noteq> None" "b \<noteq> []" "dec b = Inr buf" for t' b buf
  proof -
    have "onmessage dec t' (chunk b) ?s' = play_audio dec t' b ?s'"
      using that fields by (simp add: onmessage_chunk)
    then show ?thesis
      using that fields by (simp add: play_audio_decoded effects_since_def max_def)
  qed
  show ?thesis
    unfolding eq using stopped fields next_chunk by blast
qed

theorem interrupted_message_resets_playback_witness:
  "interrupted \<lparr>inlineData = None, interrupted = True\<rparr> \<and>
   scheduledSourcesRef two_scheduled = [9, 10] \<and>
   effects_since two_scheduled
     (onmessage decoder 2 \<lparr>inlineData = None, interrupted = True\<rparr> two_scheduled) =
     [SourceStop 9, SourceStop 10] \<and>
   playing (onmessage decoder 2 \<lparr>inlineData = None, interrupted = True\<rparr> two_scheduled) = {} \<and>
   scheduledSourcesRef
     (onmessage decoder 2 \<lparr>inlineData = None, interrupted = True\<rparr> two_scheduled) = [] \<and>
   \<not> isSpeaking (onmessage decoder 2 \<lparr>inlineData = None, interrupted = True\<rparr> two_scheduled) \<and>
   nextStartTimeRef
     (onmessage decoder 2 \<lparr>inlineData = None, interrupted = True\<rparr> two_scheduled) = 0 \<and>
   effects_since (onmessage decoder 2 \<lparr>inlineData = None, interrupted = True\<rparr> two_scheduled)
     (onmessage decoder 3 (chunk ''AAAAAAAA'')
       (onmessage decoder 2 \<lparr>inlineData = None, interrupted = True\<rparr> two_scheduled)) =
     [SourceStart 11 3 (1 / 8000)]"
proof -
  let ?m = "\<lparr>inlineData = None, interrupted = True\<rparr>"
  let ?s' = "onmessage decoder 2 ?m two_scheduled"
  have h: "interrupted ?m" by simp
  note T = interrupted_message_resets_playback [OF h, of two_scheduled decoder 2]
  have ev: "?s' =
      two_scheduled\<lparr>console := console two_scheduled @ [''Model interrupted''],
        scheduledSourcesRef := [], playing := {},
        trace := trace two_scheduled @ [SourceStop 9, SourceStop 10],
        nextStartTimeRef := 0, isSpeaking := False\<rparr>"
    by (simp add: onmessage_def truthy_def interrupt_eq two_scheduled_eq opened_eq)
  have ctx: "outputContextRef two_scheduled \<noteq> None"
    by (simp add: two_scheduled_eq opened_eq)
  have nxt: "effects_since ?s' (onmessage decoder 3 (chunk ''AAAAAAAA'') ?s') =
      [SourceStart (fresh ?s') 3 (duration \<lparr>duration = 1 / 8000\<rparr>)]"
    using T ctx decoder_three by simp
  have fr: "fresh ?s' = 11"
    unfolding ev by (simp add: two_scheduled_eq)
  have "scheduledSourcesRef two_scheduled = [9, 10]"
    by (simp add: two_scheduled_eq)
  moreover have "effects_since two_scheduled ?s' = [SourceStop 9, SourceStop 10]"
    unfolding ev by (simp add: effects_since_def)
  moreover have "playing ?s' = {}"
    unfolding ev by simp
  ultimately show ?thesis
    using T nxt fr by simp
qed

subsection \<open>Audio and interruption in one message\<close>

text \<open>
  C10. A message that carries audio and \<open>interrupted: true\<close>, handled while the
  output context exists and with a payload that decodes: the handler first schedules the
  new source (\<open>start\<close> at the timeline position) and then, in the interruption branch,
  stops it with every other source of the set. It ends with that source not playing, the
  set empty, \<open>isSpeaking\<close> false and \<open>nextStartTimeRef\<close> equal to 0.
\<close>

theorem audio_then_interruption:
  assumes "truthy (inlineData m)" and "interrupted m" and "outputContextRef s \<noteq> None"
    and "dec (the (inlineData m)) = Inr buf"
  shows "effects_since s (onmessage dec t m s) =
           SourceStart (fresh s) (max (nextStartTimeRef s) t) (duration buf) #
             stops (insert (fresh s) (playing s)) (set_add (fresh s) (scheduledSourcesRef s)) \<and>
         SourceStop (fresh s) \<in>
           set (stops (insert (fresh s) (playing s)) (set_add (fresh s) (scheduledSourcesRef s))) \<and>
         fresh s \<notin> playing (onmessage dec t m s) \<and>
         scheduledSourcesRef (onmessage dec t m s) = [] \<and>
         \<not> isSpeaking (onmessage dec t m s) \<and>
         nextStartTimeRef (onmessage dec t m s) = 0"
proof -
  have eq: "onmessage dec t m s = interrupt (play_audio dec t (the (inlineData m)) s)"
    using assms by (simp add: onmessage_def)
  have "SourceStop (fresh s) \<in>
      set (stops (insert (fresh s) (playing s)) (set_add (fresh s) (scheduledSourcesRef s)))"
    by (rule stops_complete) (simp_all add: set_add_set)
  then show ?thesis
    unfolding eq using assms(4)
    by (simp add: play_audio_decoded interrupt_eq effects_since_def set_add_set)
qed

theorem audio_then_interruption_witness:
  "truthy (inlineData \<lparr>inlineData = Some ''AAAAAAAA'', interrupted = True\<rparr>) \<and>
   interrupted \<lparr>inlineData = Some ''AAAAAAAA'', interrupted = True\<rparr> \<and>
   outputContextRef opened \<noteq> None \<and>
   decoder ''AAAAAAAA'' = Inr \<lparr>duration = 1 / 8000\<rparr> \<and>
   effects_since opened
     (onmessage decoder 1 \<lparr>inlineData = Some ''AAAAAAAA'', interrupted = True\<rparr> opened) =
     [SourceStart 9 1 (1 / 8000), SourceStop 9] \<and>
   9 \<notin> playing (onmessage decoder 1 \<lparr>inlineData = Some ''AAAAAAAA'', interrupted = True\<rparr> opened) \<and>
   scheduledSourcesRef
     (onmessage decoder 1 \<lparr>inlineData = Some ''AAAAAAAA'', interrupted = True\<rparr> opened) = [] \<and>
   \<not> isSpeaking
     (onmessage decoder 1 \<lparr>inlineData = Some ''AAAAAAAA'', interrupted = True\<rparr> opened) \<and>
   nextStartTimeRef
     (onmessage decoder 1 \<lparr>inlineData = Some ''AAAAAAAA'', interrupted = True\<rparr> opened) = 0"
proof -
  let ?m = "\<lparr>inlineData = Some ''AAAAAAAA'', interrupted = True\<rparr>"
  have h1: "truthy (inlineData ?m)" by (simp add: truthy_def)
  have h2: "interrupted ?m" by simp
  have h3: "outputContextRef opened \<noteq> None" by (simp add: opened_eq)
  have h4: "decoder (the (inlineData ?m)) = Inr \<lparr>duration = 1 / 8000\<rparr>"
    by (simp add: decoder_three)
  show ?thesis
    using h1 h2 h3 audio_then_interruption [of ?m opened decoder _ 1, OF h1 h2 h3 h4]
    by (simp add: decoder_three opened_eq set_add_def)
qed

subsection \<open>Back-to-back scheduling\<close>

lemma schedule_append: "schedule (xs @ ys) = schedule xs @ schedule ys"
  by (induction xs rule: schedule.induct) simp_all

lemma gapless_timeline: "gapless (timeline t ds)"
proof (induction ds arbitrary: t)
  case Nil
  show ?case by simp
next
  case (Cons d ds)
  show ?case
  proof (cases ds)
    case Nil
    then show ?thesis by simp
  next
    case (Cons d' ds')
    with Cons.IH [of "t + d"] show ?thesis by simp
  qed
qed

lemma durations_timeline: "map snd (timeline t ds) = ds"
  by (induction ds arbitrary: t) simp_all

lemma decodes_iff: "decodes dec b \<longleftrightarrow> b \<noteq> [] \<and> (\<exists>buf. dec b = Inr buf)"
  by (cases "dec b") (simp_all add: decodes_def)

lemma enqueue_decoded:
  assumes "outputContextRef s \<noteq> None" and "decodes dec b"
  shows "trace (onmessage dec t (chunk b) s) =
           trace s @ [SourceStart (fresh s) (max (nextStartTimeRef s) t) (decoded_duration dec b)]"
    and "nextStartTimeRef (onmessage dec t (chunk b) s) =
           max (nextStartTimeRef s) t + decoded_duration dec b"
    and "outputContextRef (onmessage dec t (chunk b) s) = outputContextRef s"
proof -
  obtain buf where b: "b \<noteq> []" "dec b = Inr buf"
    using assms(2) by (auto simp: decodes_iff)
  have eq: "onmessage dec t (chunk b) s = play_audio dec t b s"
    using assms(1) b by (simp add: onmessage_chunk)
  show "trace (onmessage dec t (chunk b) s) =
           trace s @ [SourceStart (fresh s) (max (nextStartTimeRef s) t) (decoded_duration dec b)]"
    and "nextStartTimeRef (onmessage dec t (chunk b) s) =
           max (nextStartTimeRef s) t + decoded_duration dec b"
    and "outputContextRef (onmessage dec t (chunk b) s) = outputContextRef s"
    unfolding eq using b by (simp_all add: play_audio_decoded decoded_duration_def)
qed

lemma on_time_burst:
  assumes "outputContextRef s \<noteq> None"
    and "list_all (\<lambda>(t, b). decodes dec b) bs"
    and "on_time dec s bs"
  shows "schedule (trace (run dec s (arrivals bs))) =
           schedule (trace s) @
           timeline (nextStartTimeRef s) (map (\<lambda>(t, b). decoded_duration dec b) bs) \<and>
         nextStartTimeRef (run dec s (arrivals bs)) =
           nextStartTimeRef s + sum_list (map (\<lambda>(t, b). decoded_duration dec b) bs)"
  using assms
proof (induction bs arbitrary: s)
  case Nil
  show ?case by (simp add: run_def arrivals_def)
next
  case (Cons a bs)
  obtain t b where a: "a = (t, b)" by (cases a)
  let ?s1 = "onmessage dec t (chunk b) s"
  have d: "decodes dec b" and ds: "list_all (\<lambda>(t, b). decodes dec b) bs"
    using Cons.prems(2) a by simp_all
  have late: "t \<le> nextStartTimeRef s" and rest: "on_time dec ?s1 bs"
    using Cons.prems(3) a by simp_all
  note e = enqueue_decoded [OF Cons.prems(1) d, of t]
  have ctx: "outputContextRef ?s1 \<noteq> None"
    using e(3) Cons.prems(1) by simp
  have run: "run dec s (arrivals (a # bs)) = run dec ?s1 (arrivals bs)"
    by (simp add: run_def arrivals_def a)
  from Cons.IH [OF ctx ds rest] late show ?case
    unfolding run by (simp add: e a schedule_append max_def)
qed

text \<open>
  C1. A burst of audio-only messages whose payloads decode, handled while the output
  context exists and with no interruption in between; the first may arrive at any time,
  every later one arrives while the output clock has not reached \<open>nextStartTimeRef\<close>.
  The buffers the burst starts form a gapless schedule: each starts at the start of the one
  before plus its duration. Their durations are the decoded ones, the first starts at the
  larger of the timeline position and its arrival time, and \<open>nextStartTimeRef\<close> ends
  at that start plus the sum of the durations. The arrival times of the later chunks
  appear nowhere in the result.
\<close>

theorem burst_is_gapless:
  assumes "outputContextRef s \<noteq> None"
    and "list_all (\<lambda>(t, b). decodes dec b) ((t1, b1) # rest)"
    and "on_time dec (onmessage dec t1 (chunk b1) s) rest"
  shows "gapless (drop (length (schedule (trace s)))
           (schedule (trace (run dec s (arrivals ((t1, b1) # rest)))))) \<and>
         drop (length (schedule (trace s)))
           (schedule (trace (run dec s (arrivals ((t1, b1) # rest))))) =
           timeline (max (nextStartTimeRef s) t1)
             (map (\<lambda>(t, b). decoded_duration dec b) ((t1, b1) # rest)) \<and>
         nextStartTimeRef (run dec s (arrivals ((t1, b1) # rest))) =
           max (nextStartTimeRef s) t1 +
           sum_list (map (\<lambda>(t, b). decoded_duration dec b) ((t1, b1) # rest))"
proof -
  let ?s1 = "onmessage dec t1 (chunk b1) s"
  let ?ds = "map (\<lambda>(t, b). decoded_duration dec b) rest"
  have d: "decodes dec b1" and ds: "list_all (\<lambda>(t, b). decodes dec b) rest"
    using assms(2) by simp_all
  note e = enqueue_decoded [OF assms(1) d, of t1]
  have ctx: "outputContextRef ?s1 \<noteq> None"
    using e(3) assms(1) by simp
  have run: "run dec s (arrivals ((t1, b1) # rest)) = run dec ?s1 (arrivals rest)"
    by (simp add: run_def arrivals_def)
  have new: "schedule (trace (run dec ?s1 (arrivals rest))) =
      schedule (trace s) @
      timeline (max (nextStartTimeRef s) t1) (decoded_duration dec b1 # ?ds)"
    and nst: "nextStartTimeRef (run dec ?s1 (arrivals rest)) =
      max (nextStartTimeRef s) t1 + (decoded_duration dec b1 + sum_list ?ds)"
    using on_time_burst [OF ctx ds assms(3)] by (simp_all add: e schedule_append)
  show ?thesis
    unfolding run by (simp add: new nst gapless_timeline del: timeline.simps)
qed

lemma strip_padding_unpadded: "CHR ''='' \<notin> set cs \<Longrightarrow> strip_padding cs = cs"
  by (induction cs) auto

lemma b64_digits_As: "b64_digits (replicate n CHR ''A'') = Some (replicate n 0)"
  by (induction n) (simp_all add: b64_digit_def)

lemma replicate_four: "replicate (4 + n) x = x # x # x # x # replicate n x"
  by (simp add: numeral_eq_Suc)

lemma replicate_three: "replicate (3 + n) x = x # x # x # replicate n x"
  by (simp add: numeral_eq_Suc)

lemma b64_bytes_zeros: "b64_bytes (replicate (4 * k) 0) = Some (replicate (3 * k) 0)"
proof (induction k)
  case 0
  show ?case by simp
next
  case (Suc k)
  have "b64_bytes (replicate (4 * Suc k) 0) = b64_bytes (0 # 0 # 0 # 0 # replicate (4 * k) 0)"
    by (simp add: replicate_four)
  also have "\<dots> = Some (0 # 0 # 0 # replicate (3 * k) 0)"
    by (simp add: Suc.IH)
  also have "\<dots> = Some (replicate (3 * Suc k) 0)"
    by (simp add: replicate_three)
  finally show ?case .
qed

lemma decodeBase64_As: "decodeBase64 (replicate (4 * k) CHR ''A'') = Inr (replicate (3 * k) 0)"
  by (simp add: decodeBase64_def strip_padding_unpadded b64_digits_As b64_bytes_zeros)

lemma decoder_half_second: "decoder half_second = Inr \<lparr>duration = 1 / 2\<rparr>"
proof -
  have "decodeBase64 half_second = Inr (replicate (3 * 8000) 0)"
    unfolding half_second_def using decodeBase64_As [of 8000] by simp
  then show ?thesis
    by (simp add: decoder_def decodeAudioData_def)
qed

lemma decodes_half_second: "decodes decoder half_second"
  by (simp add: decodes_def decoder_half_second) (simp add: half_second_def)

lemma duration_half_second: "decoded_duration decoder half_second = 1 / 2"
  by (simp add: decoded_duration_def decoder_half_second)

theorem burst_is_gapless_witness:
  "outputContextRef opened \<noteq> None \<and>
   list_all (\<lambda>(t, b). decodes decoder b)
     [(1, half_second), (12 / 10, half_second), (14 / 10, half_second)] \<and>
   on_time decoder (onmessage decoder 1 (chunk half_second) opened)
     [(12 / 10, half_second), (14 / 10, half_second)] \<and>
   drop (length (schedule (trace opened)))
     (schedule (trace (run decoder opened
        (arrivals [(1, half_second), (12 / 10, half_second), (14 / 10, half_second)])))) =
     [(1, 1 / 2), (3 / 2, 1 / 2), (2, 1 / 2)] \<and>
   nextStartTimeRef (run decoder opened
     (arrivals [(1, half_second), (12 / 10, half_second), (14 / 10, half_second)])) = 5 / 2"
proof -
  have h1: "outputContextRef opened \<noteq> None"
    by (simp add: opened_eq)
  have h2: "list_all (\<lambda>(t, b). decodes decoder b)
      ((1, half_second) # [(12 / 10, half_second), (14 / 10, half_second)])"
    by (simp add: decodes_half_second)
  have ns: "nextStartTimeRef opened = 0"
    by (simp add: opened_eq)
  have h3: "on_time decoder (onmessage decoder 1 (chunk half_second) opened)
      [(12 / 10, half_second), (14 / 10, half_second)]"
    using h1 by (simp add: enqueue_decoded decodes_half_second duration_half_second ns)
  show ?thesis
    using h1 h2 h3 burst_is_gapless [OF h1 h2 h3]
    by (simp add: duration_half_second ns)
qed

subsection \<open>A chunk that fails to decode\<close>

lemma alikeI:
  "s1 = s0\<lparr>isSpeaking := a, nextStartTimeRef := x, console := c\<rparr> \<Longrightarrow>
   max x t = max (nextStartTimeRef s0) t \<Longrightarrow> alike t s1 s0"
  by (simp add: alike_def)

lemma alikeE:
  assumes "alike t s1 s0"
  obtains a x c where "s1 = s0\<lparr>isSpeaking := a, nextStartTimeRef := x, console := c\<rparr>"
    and "max x t = max (nextStartTimeRef s0) t"
  using that [where a = "isSpeaking s1" and x = "nextStartTimeRef s1" and c = "console s1"] assms
  by (simp add: alike_def)

lemma alike_refl: "alike t s s"
  by (simp add: alike_def)

lemma alike_cleanup:
  "alike t s1 s0 \<Longrightarrow> alike t (cleanup s1) (cleanup s0)"
  by (erule alikeE) (simp add: cleanup_eq cleanup_calls_def alike_def)

lemma alike_console:
  "alike t s1 s0 \<Longrightarrow> alike t (s1\<lparr>console := c1\<rparr>) (s0\<lparr>console := c0\<rparr>)"
  by (erule alikeE) (simp add: alike_def)

lemma alike_error:
  "alike t s1 s0 \<Longrightarrow> alike t (s1\<lparr>error := e\<rparr>) (s0\<lparr>error := e\<rparr>)"
  by (erule alikeE) (simp add: alike_def)

lemma alike_onclose: "alike t s1 s0 \<Longrightarrow> alike t (onclose s1) (onclose s0)"
  unfolding onclose_def by (intro alike_cleanup alike_console)

lemma alike_onerror: "alike t s1 s0 \<Longrightarrow> alike t (onerror s1) (onerror s0)"
  unfolding onerror_def by (intro alike_cleanup alike_error alike_console)

lemma alike_connect:
  assumes "alike t s1 s0"
  shows "alike t (connect env s1) (connect env s0)"
proof -
  obtain a x c where s1: "s1 = s0\<lparr>isSpeaking := a, nextStartTimeRef := x, console := c\<rparr>"
    and m: "max x t = max (nextStartTimeRef s0) t"
    using assms by (rule alikeE)
  show ?thesis
  proof (cases "truthy (apiKey env)")
    case False
    then show ?thesis
      using m unfolding s1 by (simp add: connect_def alike_def)
  next
    case True
    show ?thesis
    proof (cases "userMedia env")
      case Granted
      with True m show ?thesis
        unfolding s1 by (simp add: connect_def alike_def Let_def)
    next
      case (Denied msg)
      with True show ?thesis
        unfolding s1 by (simp add: connect_def Let_def cleanup_eq cleanup_calls_def alike_def)
    qed
  qed
qed

lemma alike_onopen: "alike t s1 s0 \<Longrightarrow> alike t (onopen s1) (onopen s0)"
  by (erule alikeE) (simp add: onopen_def alike_def Let_def split: option.splits)

lemma alike_onaudioprocess:
  "alike t s1 s0 \<Longrightarrow> alike t (onaudioprocess xs s1) (onaudioprocess xs s0)"
  by (erule alikeE) (simp add: onaudioprocess_def alike_def Let_def split: option.splits)

lemma alike_onended:
  "alike t s1 s0 \<Longrightarrow>
   alike t (onended n (s1\<lparr>playing := playing s1 - {n}\<rparr>))
           (onended n (s0\<lparr>playing := playing s0 - {n}\<rparr>))"
  by (erule alikeE) (simp add: onended_def alike_def Let_def)

lemma alike_play_audio:
  assumes "alike t s1 s0" and "t \<le> t'"
  shows "alike t (play_audio dec t' b s1) (play_audio dec t' b s0)"
proof -
  obtain a x c where s1: "s1 = s0\<lparr>isSpeaking := a, nextStartTimeRef := x, console := c\<rparr>"
    and m: "max x t = max (nextStartTimeRef s0) t"
    using assms(1) by (rule alikeE)
  have m': "max x t' = max (nextStartTimeRef s0) t'"
    using m assms(2) by (simp add: max_def split: if_splits)
  show ?thesis
  proof (cases "dec b")
    case (Inl e)
    have "max (max x t') t = max (max (nextStartTimeRef s0) t') t"
      using m' by simp
    then show ?thesis
      unfolding s1 using Inl by (simp add: play_audio_failed alike_def)
  next
    case (Inr buf)
    show ?thesis
      unfolding s1 using Inr by (simp add: play_audio_decoded alike_def m')
  qed
qed

lemma alike_interrupt: "alike t s1 s0 \<Longrightarrow> alike t (interrupt s1) (interrupt s0)"
  by (erule alikeE) (simp add: interrupt_eq alike_def)

lemma alike_onmessage:
  assumes "alike t s1 s0" and "t \<le> t'"
  shows "alike t (onmessage dec t' m s1) (onmessage dec t' m s0)"
proof -
  have ctx: "outputContextRef s1 = outputContextRef s0"
    using assms(1) by (rule alikeE) simp
  show ?thesis
  proof (cases "truthy (inlineData m) \<and> outputContextRef s0 \<noteq> None")
    case True
    then show ?thesis
      using assms ctx by (simp add: onmessage_def Let_def alike_play_audio alike_interrupt)
  next
    case False
    then show ?thesis
      using assms ctx by (auto simp: onmessage_def Let_def alike_interrupt)
  qed
qed

lemma alike_step:
  "alike t s1 s0 \<Longrightarrow> not_before t ev \<Longrightarrow> alike t (step dec s1 ev) (step dec s0 ev)"
  by (cases ev)
    (simp_all add: alike_connect alike_cleanup alike_onopen alike_onmessage alike_onclose
      alike_onerror alike_onaudioprocess alike_onended)

lemma alike_run:
  "alike t s1 s0 \<Longrightarrow> list_all (not_before t) evs \<Longrightarrow> alike t (run dec s1 evs) (run dec s0 evs)"
  unfolding run_def by (induction evs arbitrary: s1 s0) (simp_all add: alike_step)

lemma alike_trace: "alike t s1 s0 \<Longrightarrow> trace s1 = trace s0"
  by (erule alikeE) simp

text \<open>
  C5. A message whose audio fails to decode, handled at clock reading \<open>t\<close>: the
  exception is caught, "Audio decode error" goes to the console, and the handler goes on
  with the rest of the message; besides the console only \<open>isSpeaking\<close> (set before
  the decoding) and \<open>nextStartTimeRef\<close> (raised to \<open>t\<close> if it was behind) have
  changed, so the session is as connected as before. Whatever happens afterwards, with
  the output clock not running backwards, the calls on the audio graph are those of the
  run in which the message had carried no audio: every later buffer is started with the
  same source, at the same time and with the same duration.
\<close>

theorem decode_error_keeps_timeline:
  assumes "truthy (inlineData m)" and "dec (the (inlineData m)) = Inl e"
    and "list_all (not_before t) evs"
  shows "onmessage dec t m s =
           onmessage dec t (m\<lparr>inlineData := None\<rparr>)
             (if outputContextRef s = None then s
              else s\<lparr>isSpeaking := True,
                     nextStartTimeRef := max (nextStartTimeRef s) t,
                     console := console s @ [''Audio decode error'']\<rparr>) \<and>
         trace (run dec (onmessage dec t m s) evs) =
           trace (run dec (onmessage dec t (m\<lparr>inlineData := None\<rparr>) s) evs) \<and>
         schedule (trace (run dec (onmessage dec t m s) evs)) =
           schedule (trace (run dec (onmessage dec t (m\<lparr>inlineData := None\<rparr>) s) evs))"
proof -
  let ?m' = "m\<lparr>inlineData := None\<rparr>"
  let ?s1 = "s\<lparr>isSpeaking := True, nextStartTimeRef := max (nextStartTimeRef s) t,
                console := console s @ [''Audio decode error'']\<rparr>"
  have handled: "onmessage dec t m s =
      onmessage dec t ?m' (if outputContextRef s = None then s else ?s1)"
    using assms(1,2) by (simp add: onmessage_def truthy_def play_audio_failed)
  have "alike t ?s1 s"
    by (rule alikeI [where a = True and x = "max (nextStartTimeRef s) t"
          and c = "console s @ [''Audio decode error'']"]) simp_all
  then have "alike t (if outputContextRef s = None then s else ?s1) s"
    by (simp add: alike_refl)
  then have "alike t (onmessage dec t m s) (onmessage dec t ?m' s)"
    unfolding handled by (rule alike_onmessage) simp
  then have "alike t (run dec (onmessage dec t m s) evs) (run dec (onmessage dec t ?m' s) evs)"
    using assms(3) by (rule alike_run)
  then have "trace (run dec (onmessage dec t m s) evs) =
      trace (run dec (onmessage dec t ?m' s) evs)"
    by (rule alike_trace)
  with handled show ?thesis by simp
qed

theorem decode_error_keeps_timeline_witness:
  "truthy (inlineData (chunk ''AAAA'')) \<and>
   decoder (the (inlineData (chunk ''AAAA''))) = Inl DecodeError \<and>
   list_all (not_before 1) [OnMessage 2 (chunk ''AAAAAAAA'')] \<and>
   onmessage decoder 1 (chunk ''AAAA'') opened =
     opened\<lparr>isSpeaking := True, nextStartTimeRef := 1,
            console := [''Live Session Opened'', ''Audio decode error'']\<rparr> \<and>
   schedule (trace (run decoder (onmessage decoder 1 (chunk ''AAAA'') opened)
     [OnMessage 2 (chunk ''AAAAAAAA'')])) = [(2, 1 / 8000)] \<and>
   schedule (trace (run decoder opened [OnMessage 2 (chunk ''AAAAAAAA'')])) = [(2, 1 / 8000)]"
proof -
  have h1: "truthy (inlineData (chunk ''AAAA''))"
    by (simp add: chunk_def truthy_def)
  have h2: "decoder (the (inlineData (chunk ''AAAA''))) = Inl DecodeError"
    by (simp add: chunk_def decoder_odd)
  have h3: "list_all (not_before 1) [OnMessage 2 (chunk ''AAAAAAAA'')]"
    by simp
  have without: "schedule (trace (run decoder opened [OnMessage 2 (chunk ''AAAAAAAA'')])) =
      [(2, 1 / 8000)]"
    by (simp add: run_def onmessage_chunk play_audio_decoded decoder_three opened_eq)
  have plain: "onmessage decoder 1 ((chunk ''AAAA'')\<lparr>inlineData := None\<rparr>) s = s" for s
    by (simp add: onmessage_def chunk_def truthy_def)
  have fields: "outputContextRef opened \<noteq> None" "nextStartTimeRef opened = 0"
    "console opened = [''Live Session Opened'']"
    by (simp_all add: opened_eq)
  note T = decode_error_keeps_timeline [where dec = decoder and m = "chunk ''AAAA''"
      and s = opened, OF h1 h2 h3]
  have handled: "onmessage decoder 1 (chunk ''AAAA'') opened =
      opened\<lparr>isSpeaking := True, nextStartTimeRef := 1,
             console := [''Live Session Opened'', ''Audio decode error'']\<rparr>"
    using T [THEN conjunct1] fields by (simp add: plain)
  have "schedule (trace (run decoder (onmessage decoder 1 (chunk ''AAAA'') opened)
      [OnMessage 2 (chunk ''AAAAAAAA'')])) = [(2, 1 / 8000)]"
    using T [THEN conjunct2, THEN conjunct2] by (simp only: plain without)
  with h1 h2 h3 handled without show ?thesis
    by simp
qed

subsection \<open>Speaking and the scheduled set\<close>

lemma set_add_nonempty: "set_add x xs \<noteq> []"
  by (auto simp: set_add_def)

lemma matches_step:
  assumes "speaking_matches s" and "decodable_event dec ev"
  shows "speaking_matches (step dec s ev)"
proof (cases ev)
  case (Connect env)
  with assms(1) show ?thesis
    by (cases "userMedia env")
      (simp_all add: connect_def Let_def cleanup_eq speaking_matches_def)
next
  case Disconnect
  then show ?thesis by (simp add: cleanup_eq speaking_matches_def)
next
  case OnOpen
  with assms(1) show ?thesis
    by (simp add: onopen_def Let_def speaking_matches_def split: option.splits)
next
  case (OnMessage t m)
  show ?thesis
  proof (cases "truthy (inlineData m) \<and> outputContextRef s \<noteq> None")
    case True
    with assms(2) OnMessage obtain buf where "dec (the (inlineData m)) = Inr buf"
      by (auto simp: decodes_iff)
    with True OnMessage show ?thesis
      by (simp add: onmessage_def Let_def play_audio_decoded interrupt_eq speaking_matches_def
          set_add_nonempty)
  next
    case False
    with assms(1) OnMessage show ?thesis
      by (auto simp: onmessage_def Let_def interrupt_eq speaking_matches_def)
  qed
next
  case OnClose
  then show ?thesis by (simp add: onclose_def cleanup_eq speaking_matches_def)
next
  case OnError
  then show ?thesis by (simp add: onerror_def cleanup_eq speaking_matches_def)
next
  case (AudioProcess xs)
  with assms(1) show ?thesis
    by (simp add: onaudioprocess_def Let_def speaking_matches_def split: option.splits)
next
  case (Ended n)
  with assms(1) show ?thesis
    by (auto simp: onended_def Let_def speaking_matches_def)
qed

text \<open>
  As long as every payload decodes, \<open>isSpeaking\<close> is true exactly when the set of
  scheduled sources is not empty.
\<close>

lemma speaking_matches_while_decodable:
  "list_all (decodable_event dec) evs \<Longrightarrow> speaking_matches (run dec initial evs)"
proof (induction evs rule: rev_induct)
  case Nil
  show ?case by (simp add: run_def initial_def speaking_matches_def)
next
  case (snoc ev evs)
  then show ?case by (simp add: run_def matches_step)
qed

text \<open>
  C4. The session that connected, was opened and then received one message whose audio
  is three bytes long: the decoder raises, the \<open>catch\<close> logs, and the state the handler
  leaves has \<open>isSpeaking\<close> true while the set of scheduled sources is empty.
\<close>

theorem speaking_with_nothing_scheduled:
  "isSpeaking after_corrupt_chunk \<and> scheduledSourcesRef after_corrupt_chunk = [] \<and>
   console after_corrupt_chunk = [''Live Session Opened'', ''Audio decode error'']"
proof -
  have "after_corrupt_chunk = onmessage decoder 1 (chunk ''AAAA'') opened"
    by (simp add: after_corrupt_chunk_def opened_def run_def)
  also have "\<dots> = play_audio decoder 1 ''AAAA'' opened"
    by (rule onmessage_chunk) (simp_all add: opened_eq)
  also have "\<dots> = opened\<lparr>isSpeaking := True, nextStartTimeRef := max (nextStartTimeRef opened) 1,
      console := console opened @ [''Audio decode error'']\<rparr>"
    by (rule play_audio_failed) (rule decoder_odd)
  finally have eq: "after_corrupt_chunk =
      opened\<lparr>isSpeaking := True, nextStartTimeRef := max (nextStartTimeRef opened) 1,
        console := console opened @ [''Audio decode error'']\<rparr>" .
  show ?thesis
    unfolding eq by (simp add: opened_eq)
qed

subsection \<open>The volume estimate\<close>

lemma sum_squares_foldl:
  "foldl (\<lambda>sum x. sum + x * x) a xs = a + sum_list (map (\<lambda>x. x * x) xs)"
  by (induction xs arbitrary: a) (simp_all add: add.assoc)

lemma sum_squares_bounds:
  fixes xs :: "real list"
  assumes "list_all (\<lambda>x. - 1 \<le> x \<and> x \<le> 1) xs"
  shows "0 \<le> sum_list (map (\<lambda>x. x * x) xs) \<and> sum_list (map (\<lambda>x. x * x) xs) \<le> real (length xs)"
  using assms
proof (induction xs)
  case Nil
  show ?case by simp
next
  case (Cons x xs)
  then have x: "- 1 \<le> x" "x \<le> 1" and IH: "0 \<le> sum_list (map (\<lambda>x. x * x) xs)"
      "sum_list (map (\<lambda>x. x * x) xs) \<le> real (length xs)"
    by simp_all
  have "x\<^sup>2 \<le> 1"
    using x by (simp add: abs_square_le_1 abs_le_iff)
  then have "x * x \<le> 1"
    by (simp add: power2_eq_square)
  moreover have "0 \<le> x * x" by simp
  ultimately show ?case using IH by simp
qed

lemma rms_bounds:
  assumes "valid_frame xs"
  shows "0 \<le> rms xs \<and> rms xs \<le> 1"
proof -
  have len: "length xs = 4096" and smp: "list_all (\<lambda>x. - 1 \<le> x \<and> x \<le> 1) xs"
    using assms by (simp_all add: valid_frame_def)
  let ?q = "sum_list (map (\<lambda>x. x * x) xs)"
  have q: "0 \<le> ?q" "?q \<le> 4096"
    using sum_squares_bounds [OF smp] len by simp_all
  have r: "rms xs = sqrt (?q / 4096)"
    by (simp add: rms_def sum_squares_foldl len)
  have "?q / 4096 \<le> 1" using q by simp
  then have "sqrt (?q / 4096) \<le> 1" by simp
  moreover have "0 \<le> sqrt (?q / 4096)" using q by simp
  ultimately show ?thesis by (simp add: r)
qed

lemma volume_onaudioprocess:
  "volume (onaudioprocess xs s) = max 0.1 (volume s * 0.8 + rms xs * 2)"
  by (simp add: onaudioprocess_def Let_def split: option.splits)

lemma volume_step:
  assumes "0 \<le> volume s \<and> volume s \<le> 10" and "valid_event ev"
  shows "0 \<le> volume (step dec s ev) \<and> volume (step dec s ev) \<le> 10"
proof (cases ev)
  case (Connect env)
  with assms(1) show ?thesis
    by (cases "userMedia env") (simp_all add: connect_def Let_def cleanup_eq)
next
  case Disconnect
  then show ?thesis by (simp add: cleanup_eq)
next
  case OnOpen
  with assms(1) show ?thesis
    by (simp add: onopen_def Let_def split: option.splits)
next
  case (OnMessage t m)
  have "volume (play_audio dec t b s') = volume s'" for b s'
    by (cases "dec b") (simp_all add: play_audio_decoded play_audio_failed)
  with assms(1) OnMessage show ?thesis
    by (simp add: onmessage_def Let_def interrupt_eq)
next
  case OnClose
  then show ?thesis by (simp add: onclose_def cleanup_eq)
next
  case OnError
  then show ?thesis by (simp add: onerror_def cleanup_eq)
next
  case (AudioProcess xs)
  with assms(2) have "0 \<le> rms xs \<and> rms xs \<le> 1"
    by (simp add: rms_bounds)
  with assms(1) AudioProcess show ?thesis
    by (simp add: volume_onaudioprocess)
next
  case (Ended n)
  with assms(1) show ?thesis
    by (simp add: onended_def Let_def)
qed

lemma volume_run:
  "list_all valid_event evs \<Longrightarrow>
   0 \<le> volume (run dec initial evs) \<and> volume (run dec initial evs) \<le> 10"
proof (induction evs rule: rev_induct)
  case Nil
  show ?case by (simp add: run_def initial_def)
next
  case (snoc ev evs)
  then show ?case by (simp add: run_def volume_step)
qed

lemma rms_full_scale: "rms (replicate 4096 1) = 1"
proof -
  have "sum_list (map (\<lambda>x. x * x) (replicate n (1::real))) = real n" for n
    by (induction n) simp_all
  then show ?thesis
    by (simp add: rms_def sum_squares_foldl)
qed

text \<open>
  C7, as stated: the volume does not stay in \<open>[0, 1]\<close>. One block of 4096 samples at
  full scale, the first after the session was opened, has root mean square 1 and takes
  the volume from 0 to 2.
\<close>

theorem volume_above_one:
  "valid_event (AudioProcess (replicate 4096 1)) \<and> volume after_loud_block = 2 \<and>
   \<not> (0 \<le> volume after_loud_block \<and> volume after_loud_block \<le> 1)"
proof -
  have eq: "after_loud_block = onaudioprocess (replicate 4096 1) opened"
    by (simp add: after_loud_block_def opened_def run_def)
  have "volume after_loud_block = 2"
    unfolding eq by (simp add: volume_onaudioprocess rms_full_scale opened_eq)
  then show ?thesis
    by (simp add: valid_frame_def list_all_iff)
qed

text \<open>
  C7, amended. Every update by a block of 4096 samples in \<open>[-1, 1]\<close> sets the
  volume to \<open>max(0.1, 0.8 * previous + 2 * rms)\<close>, so right after one it is at least
  0.1. Over any run from the initial state with such blocks the volume stays in
  \<open>[0, 10]\<close>; the bound 1 of the claim does not hold.
\<close>

theorem volume_bounds:
  assumes "valid_frame xs" and "list_all valid_event evs"
  shows "volume (onaudioprocess xs s) = max 0.1 (volume s * 0.8 + rms xs * 2) \<and>
         0.1 \<le> volume (onaudioprocess xs s) \<and>
         0 \<le> volume (run dec initial evs) \<and> volume (run dec initial evs) \<le> 10"
  using volume_run [OF assms(2), of dec] by (simp add: volume_onaudioprocess)

theorem volume_bounds_witness:
  "valid_frame (replicate 4096 1) \<and>
   list_all valid_event [Connect granted, OnOpen, AudioProcess (replicate 4096 1)] \<and>
   volume (onaudioprocess (replicate 4096 1) opened) = 2 \<and>
   0.1 \<le> volume (onaudioprocess (replicate 4096 1) opened) \<and>
   0 \<le> volume after_loud_block \<and> volume after_loud_block \<le> 10"
proof -
  have f: "valid_frame (replicate 4096 1)"
    by (simp add: valid_frame_def list_all_iff)
  have h: "list_all valid_event [Connect granted, OnOpen, AudioProcess (replicate 4096 1)]"
    by (simp add: f)
  have v: "volume opened = 0"
    by (simp add: opened_eq)
  show ?thesis
    using f h volume_bounds [OF f h, of opened decoder]
    by (simp add: after_loud_block_def rms_full_scale v)
qed

subsection \<open>Quantisation\<close>

text \<open>
  Whether a sample in \<open>[-1, 1]\<close> comes back within 1/32768 depends on the reading of
  the encoder: with the saturating one it does, with the asymmetric one the sample 0.9
  comes back 1.2/32768 too small.
\<close>

lemma trunc_near: "\<bar>real_of_int (trunc y) - y\<bar> < 1"
  unfolding trunc_def by (cases "0 \<le> y") (simp_all, linarith+)

lemma saturating_round_trip:
  assumes "- 1 \<le> x" and "x \<le> 1"
  shows "\<bar>decode_sample (encode_saturating x) - x\<bar> \<le> 1 / 32768"
proof -
  let ?y = "x * 32768"
  let ?n = "trunc ?y"
  have c: "clamp x = x"
    using assms by (simp add: clamp_def)
  have near: "\<bar>real_of_int ?n - ?y\<bar> < 1"
    by (rule trunc_near)
  have top: "?n \<le> 32768"
  proof -
    have "real_of_int ?n < ?y + 1" using near by linarith
    also have "\<dots> \<le> 32769" using assms by simp
    finally have "real_of_int ?n < real_of_int 32769" by simp
    then have "?n < 32769" by (simp only: of_int_less_iff)
    then show ?thesis by simp
  qed
  show ?thesis
  proof (cases "?n \<le> 32767")
    case True
    then have "encode_saturating x = ?n"
      by (simp add: encode_saturating_def c)
    then have d: "decode_sample (encode_saturating x) = real_of_int ?n / 32768"
      by (simp add: decode_sample_def)
    from near have "- 1 < real_of_int ?n - ?y" "real_of_int ?n - ?y < 1"
      by linarith+
    then show ?thesis
      unfolding d by linarith
  next
    case False
    with top have n: "?n = 32768" by simp
    have "0 \<le> ?y"
    proof (rule ccontr)
      assume "\<not> 0 \<le> ?y"
      then have "?n \<le> 0" by (simp add: trunc_def ceiling_le_zero)
      with n show False by simp
    qed
    then have "real_of_int ?n \<le> ?y"
      by (simp add: trunc_def)
    with n have "32768 \<le> ?y" by simp
    with assms have x: "x = 1" by simp
    have "encode_saturating x = 32767"
      using n by (simp add: encode_saturating_def c)
    then show ?thesis
      by (simp add: decode_sample_def x)
  qed
qed

lemma asymmetric_round_trip:
  "\<bar>decode_sample (encode_asymmetric (9 / 10)) - 9 / 10\<bar> = 12 / 10 / 32768 \<and>
   \<not> \<bar>decode_sample (encode_asymmetric (9 / 10)) - 9 / 10\<bar> \<le> 1 / 32768"
proof -
  have "encode_asymmetric (9 / 10) = 29490"
    by (simp add: encode_asymmetric_def clamp_def trunc_def)
  then show ?thesis
    by (simp add: decode_sample_def)
qed

section \<open>Properties of the visualizer loop\<close>

lemma refresh_idle: "\<not> frameRequested v \<Longrightarrow> refresh canvas v = v"
  by (simp add: refresh_def)

lemma refreshes_idle: "\<not> frameRequested v \<Longrightarrow> refreshes canvas n v = v"
  by (induction n) (simp_all add: refresh_idle)

lemma refresh_completes:
  "frameRequested v \<Longrightarrow> canvas (timeRef v + 0.01) = None \<Longrightarrow>
   refresh canvas v =
     v\<lparr>timeRef := timeRef v + 0.01, ticks := Suc (ticks v),
       animationRef := Suc (animationRef v)\<rparr>"
  by (simp add: refresh_def call_render_def render_def)

lemma refresh_throws:
  "frameRequested v \<Longrightarrow> canvas (timeRef v + 0.01) = Some e \<Longrightarrow>
   refresh canvas v =
     v\<lparr>frameRequested := False, timeRef := timeRef v + 0.01, ticks := Suc (ticks v),
       uncaught := uncaught v @ [e]\<rparr>"
  by (simp add: refresh_def call_render_def render_def)

lemma refreshes_steady:
  "(\<And>t. canvas t = None) \<Longrightarrow> frameRequested v \<Longrightarrow>
   frameRequested (refreshes canvas n v) \<and> ticks (refreshes canvas n v) = ticks v + n"
  by (induction n arbitrary: v) (simp_all add: refresh_completes)

text \<open>
  C9, as stated: a tick that throws does stop the loop. On the canvas \<open>glitch\<close> the
  effect's own call of \<open>render\<close> completes and asks for a frame; the tick of the first
  refresh throws; after it no frame is requested, and ten more refreshes run no tick,
  although no later tick would have thrown.
\<close>

theorem throwing_tick_stops_loop:
  "frameRequested (call_render glitch mounted) \<and>
   uncaught (refresh glitch (call_render glitch mounted)) = [InvalidStateError] \<and>
   \<not> frameRequested (refresh glitch (call_render glitch mounted)) \<and>
   ticks (refresh glitch (call_render glitch mounted)) = 2 \<and>
   ticks (refreshes glitch 10 (refresh glitch (call_render glitch mounted))) = 2"
proof -
  have first: "call_render glitch mounted =
      \<lparr>timeRef = 0.01, animationRef = 1, frameRequested = True, ticks = 1, uncaught = []\<rparr>"
    by (simp add: call_render_def render_def glitch_def mounted_def)
  have second: "refresh glitch
      \<lparr>timeRef = 0.01, animationRef = 1, frameRequested = True, ticks = 1, uncaught = []\<rparr> =
      \<lparr>timeRef = 0.02, animationRef = 1, frameRequested = False, ticks = 2,
        uncaught = [InvalidStateError]\<rparr>"
    by (simp add: refresh_def call_render_def render_def glitch_def)
  have later: "refreshes glitch 10
      \<lparr>timeRef = 0.02, animationRef = 1, frameRequested = False, ticks = 2,
        uncaught = [InvalidStateError]\<rparr> =
      \<lparr>timeRef = 0.02, animationRef = 1, frameRequested = False, ticks = 2,
        uncaught = [InvalidStateError]\<rparr>"
    by (rule refreshes_idle) simp
  show ?thesis
    by (simp only: first second later) simp
qed

text \<open>
  C9, amended. A tick that completes asks for the next frame, so on a canvas that never
  throws the loop runs one tick per refresh for as long as it is refreshed. A tick that
  throws is not caught: the exception reaches the browser, no frame is requested, and no
  refresh after it runs a tick.
\<close>

theorem render_loop:
  assumes "frameRequested v"
  shows "(canvas (timeRef v + 0.01) = None \<longrightarrow>
            frameRequested (refresh canvas v) \<and> ticks (refresh canvas v) = Suc (ticks v)) \<and>
         ((\<forall>t. canvas t = None) \<longrightarrow>
            frameRequested (refreshes canvas n v) \<and>
            ticks (refreshes canvas n v) = ticks v + n) \<and>
         (canvas (timeRef v + 0.01) = Some e \<longrightarrow>
            \<not> frameRequested (refresh canvas v) \<and>
            uncaught (refresh canvas v) = uncaught v @ [e] \<and>
            ticks (refreshes canvas n (refresh canvas v)) = Suc (ticks v))"
proof (intro conjI impI)
  assume ok: "canvas (timeRef v + 0.01) = None"
  show "frameRequested (refresh canvas v)" "ticks (refresh canvas v) = Suc (ticks v)"
    using assms ok by (simp_all add: refresh_completes)
next
  assume "\<forall>t. canvas t = None"
  then show "frameRequested (refreshes canvas n v)"
    "ticks (refreshes canvas n v) = ticks v + n"
    using assms refreshes_steady [of canvas v n] by simp_all
next
  assume thrown: "canvas (timeRef v + 0.01) = Some e"
  show "\<not> frameRequested (refresh canvas v)"
    "uncaught (refresh canvas v) = uncaught v @ [e]"
    using assms thrown by (simp_all add: refresh_throws)
  then have "refreshes canvas n (refresh canvas v) = refresh canvas v"
    by (simp add: refreshes_idle)
  then show "ticks (refreshes canvas n (refresh canvas v)) = Suc (ticks v)"
    using assms thrown by (simp add: refresh_throws)
qed

theorem render_loop_witness:
  "frameRequested (call_render steady mounted) \<and>
   frameRequested (call_render glitch mounted) \<and>
   frameRequested (refreshes steady 10 (call_render steady mounted)) \<and>
   ticks (refreshes steady 10 (call_render steady mounted)) = 11 \<and>
   glitch (timeRef (call_render glitch mounted) + 0.01) = Some InvalidStateError \<and>
   \<not> frameRequested (refresh glitch (call_render glitch mounted)) \<and>
   ticks (refreshes glitch 10 (refresh glitch (call_render glitch mounted))) = 2"
proof -
  have s1: "call_render steady mounted =
      \<lparr>timeRef = 0.01, animationRef = 1, frameRequested = True, ticks = 1, uncaught = []\<rparr>"
    by (simp add: call_render_def render_def steady_def mounted_def)
  have g1: "call_render glitch mounted =
      \<lparr>timeRef = 0.01, animationRef = 1, frameRequested = True, ticks = 1, uncaught = []\<rparr>"
    by (simp add: call_render_def render_def glitch_def mounted_def)
  have hs: "frameRequested (call_render steady mounted)" by (simp add: s1)
  have hg: "frameRequested (call_render glitch mounted)" by (simp add: g1)
  have st: "\<forall>t. steady t = None" by (simp add: steady_def)
  have gl: "glitch (timeRef (call_render glitch mounted) + 0.01) = Some InvalidStateError"
    by (simp add: g1 glitch_def)
  from render_loop [where canvas = steady and n = 10, OF hs] st
  have a: "frameRequested (refreshes steady 10 (call_render steady mounted))"
    "ticks (refreshes steady 10 (call_render steady mounted)) = 11"
    by (simp_all add: s1)
  from render_loop [where canvas = glitch and e = InvalidStateError and n = 10, OF hg] gl
  have b: "\<not> frameRequested (refresh glitch (call_render glitch mounted))"
    "ticks (refreshes glitch 10 (refresh glitch (call_render glitch mounted))) = 2"
    by (simp_all add: g1)
  show ?thesis
    using hs hg a b gl by simp
qed

end
